theory Spec2Isabelle
  imports Complex_Main
begin

section \<open>The click-to-segment visualisation of segmenter.py\<close>

text \<open>
  The class \<open>SegmentationVisualization\<close> keeps four parallel Python lists (the click
  coordinates \<open>xpoints\<close> and \<open>ypoints\<close>, the drawn \<open>circle_shapes\<close> and their
  \<open>annotations\<close>), the last mask chosen from the predictor's answer and the two plot
  handles. Its methods mutate the object in place, so a method that raises leaves behind
  whatever it had already changed. The model is explicit state passing: every method
  takes the object's state and returns an \<open>outcome\<close>, the state it left together with
  the exception when it raised.

  The segmentation predictor (\<open>SamPredictor.predict\<close>) and the circle solver
  (\<open>smallestenclosingcircle.make_circle\<close>) are libraries outside the repository: they
  are parameters of the model, collected in the record \<open>env\<close>. Calls to the plotting
  library, to the predictor and to the solver are logged, in order, in the field
  \<open>calls\<close>, so that statements about what a method does or does not invoke can be
  written down. Floating-point numbers are modelled by the reals.
\<close>

subsection \<open>Data\<close>

datatype py_error = IndexError | TypeError | ZeroDivisionError | AttributeError | ValueError

datatype 'a outcome = Done 'a | Raised py_error 'a

fun state_of :: "'a outcome \<Rightarrow> 'a" where
  "state_of (Done s) = s"
| "state_of (Raised e s) = s"

fun raised :: "'a outcome \<Rightarrow> py_error option" where
  "raised (Done s) = None"
| "raised (Raised e s) = Some e"

text \<open>Sequencing of two statements: the second runs only when the first returned.\<close>

fun and_then :: "'a outcome \<Rightarrow> ('a \<Rightarrow> 'a outcome) \<Rightarrow> 'a outcome" where
  "and_then (Done s) f = f s"
| "and_then (Raised e s) f = Raised e s"

text \<open>
  A mask is a two-dimensional boolean array: \<open>shape_h\<close> rows, \<open>shape_w\<close> columns, and
  \<open>pixel m y x\<close> for the Python expression \<open>mask[y][x]\<close>.
\<close>

record mask =
  shape_h :: nat
  shape_w :: nat
  pixel :: "nat \<Rightarrow> nat \<Rightarrow> bool"

text \<open>A circle as the solver returns it: centre x, centre y, radius.\<close>

type_synonym circle = "real \<times> real \<times> real"

text \<open>
  The annotation drawn next to a circle: the sphericity its text reports, the point the
  arrow points at and the position of the text.
\<close>

record annotation =
  sphericity_of :: real
  xy :: "real \<times> real"
  xytext :: "real \<times> real"

text \<open>
  The calls that leave the class, as they are logged: \<open>predictor.predict\<close> with its three
  arguments; \<open>mask_plot.remove()\<close> and \<open>ax.imshow\<close> of the coloured mask;
  \<open>scatter_plot.remove()\<close> and \<open>ax.scatter\<close> of both coordinate lists;
  \<open>sec.make_circle\<close> with the collected cells; the four \<open>print\<close> lines of \<open>add_circle\<close>
  as one entry (circle area, pixel count, sphericity); \<open>ax.add_artist\<close> and
  \<open>ax.annotate\<close>; \<open>remove()\<close> on a circle and on an annotation; and
  \<open>fig.canvas.draw_idle()\<close>.
\<close>

datatype call =
    Predict "(real \<times> real) list" "int list" bool
  | MaskPlotRemove
  | Imshow mask
  | ScatterRemove
  | Scatter "real list" "real list"
  | MakeCircle "(nat \<times> nat) list"
  | PrintReport real nat real
  | AddArtist circle
  | Annotate annotation
  | CircleRemove circle
  | AnnotationRemove annotation
  | DrawIdle

text \<open>
  The two collaborators. \<open>predict E point_coords point_labels multimask_output\<close> is the
  pair of the candidate masks and their scores (the third component, the logits, is
  never read); \<open>make_circle E points\<close> is the fitted circle, or \<open>None\<close>. The image is
  set once in \<open>__init__\<close>, so the answers depend on the prompt alone.
\<close>

record env =
  predict :: "(real \<times> real) list \<Rightarrow> int list \<Rightarrow> bool \<Rightarrow> mask list \<times> real list"
  make_circle :: "(nat \<times> nat) list \<Rightarrow> circle option"

record vis =
  xpoints :: "real list"
  ypoints :: "real list"
  scatter_plot :: "(real list \<times> real list) option"
  current_mask :: "mask option"
  mask_plot :: "mask option"
  circle_shapes :: "circle list"
  annotations :: "annotation list"
  all_points :: "(nat \<times> nat) list option"
  calls :: "call list"

text \<open>The object as \<open>__init__\<close> leaves it (the attribute \<open>all_points\<close> does not exist yet).\<close>

definition init :: vis where
  "init = \<lparr>xpoints = [], ypoints = [], scatter_plot = None, current_mask = None,
     mask_plot = None, circle_shapes = [], annotations = [], all_points = None, calls = []\<rparr>"

definition emit :: "call \<Rightarrow> vis \<Rightarrow> vis" where
  "emit c s = s\<lparr>calls := calls s @ [c]\<rparr>"

text \<open>The calls a method added to the log, given the state before and the state after.\<close>

definition emitted :: "vis \<Rightarrow> vis \<Rightarrow> call list" where
  "emitted s s' = drop (length (calls s)) (calls s')"

subsection \<open>draw_mask\<close>

text \<open>
  Lines 81 to 83: the candidates are paired with their scores, sorted by score with
  Python's stable \<open>sorted\<close>, and the mask of the last pair is taken; indexing the empty
  list with \<open>[-1]\<close> raises. \<open>sort_key\<close> is a stable sort, as \<open>sorted\<close> is.
\<close>

definition best_mask :: "('m \<times> 's::linorder) list \<Rightarrow> py_error + 'm" where
  "best_mask masks_scores =
     (case sort_key snd masks_scores of
        [] \<Rightarrow> Inl IndexError
      | p # ps \<Rightarrow> Inr (fst (last (p # ps))))"

text \<open>The candidates the predictor returns for one positive point prompt, zipped.\<close>

definition candidates :: "env \<Rightarrow> real \<times> real \<Rightarrow> (mask \<times> real) list" where
  "candidates E p = zip (fst (predict E [p] [1] True)) (snd (predict E [p] [1] True))"

definition draw_mask :: "env \<Rightarrow> vis \<Rightarrow> vis outcome" where
  "draw_mask E s =
     (let s1 = (case mask_plot s of
                  Some old \<Rightarrow> (emit MaskPlotRemove s)\<lparr>mask_plot := None\<rparr>
                | None \<Rightarrow> s)
      in if length (xpoints s1) = 0 then Done s1
         else if ypoints s1 = [] then Raised IndexError s1
         else
           let input_point = (last (xpoints s1), last (ypoints s1));
               s2 = emit (Predict [input_point] [1] True) s1
           in case best_mask (candidates E input_point) of
                Inl e \<Rightarrow> Raised e s2
              | Inr m \<Rightarrow> Done ((emit (Imshow m) (s2\<lparr>current_mask := Some m\<rparr>))
                                 \<lparr>mask_plot := Some m\<rparr>))"

subsection \<open>draw_points\<close>

text \<open>
  The old scatter plot is removed and a new one drawn from both coordinate lists;
  \<open>Axes.scatter\<close> raises \<open>ValueError\<close> when the two lists differ in size.
\<close>

definition draw_points :: "vis \<Rightarrow> vis outcome" where
  "draw_points s =
     (let s1 = (case scatter_plot s of
                  Some old \<Rightarrow> (emit ScatterRemove s)\<lparr>scatter_plot := None\<rparr>
                | None \<Rightarrow> s)
      in if length (xpoints s1) = length (ypoints s1)
         then Done ((emit (Scatter (xpoints s1) (ypoints s1)) s1)
                      \<lparr>scatter_plot := Some (xpoints s1, ypoints s1)\<rparr>)
         else Raised ValueError s1)"

subsection \<open>add_circle and remove_circle\<close>

text \<open>
  Lines 165 to 170: the grid is walked column by column (\<open>x\<close> outside, \<open>y\<close> inside) and
  the coordinates \<open>(x, y)\<close> of every cell that is set are collected in that order.
\<close>

definition mask_points :: "mask \<Rightarrow> (nat \<times> nat) list" where
  "mask_points m =
     concat (map (\<lambda>x. map (\<lambda>y. (x, y)) (filter (\<lambda>y. pixel m y x) [0..<shape_h m]))
                 [0..<shape_w m])"

text \<open>
  \<open>add_circle\<close>, lines 162 to 200. Reading \<open>.shape\<close> of \<open>None\<close> raises
  \<open>AttributeError\<close>; the solver returns \<open>None\<close> when it has no circle, and the subscript
  \<open>circle[2]\<close> then raises \<open>TypeError\<close>; \<open>sand_pixels / circle_area\<close> is a division of
  Python numbers and raises \<open>ZeroDivisionError\<close> when the area is zero.
\<close>

definition add_circle :: "env \<Rightarrow> vis \<Rightarrow> vis outcome" where
  "add_circle E s =
     (case current_mask s of
        None \<Rightarrow> Raised AttributeError s
      | Some m \<Rightarrow>
          let pts = mask_points m;
              s1 = emit (MakeCircle pts) (s\<lparr>all_points := Some pts\<rparr>)
          in case make_circle E pts of
               None \<Rightarrow> Raised TypeError s1
             | Some (cx, cy, r) \<Rightarrow>
                 let circle_area = pi * r * r;
                     sand_pixels = length pts
                 in if circle_area = 0 then Raised ZeroDivisionError s1
                    else
                      let sphericity = real sand_pixels / circle_area;
                          s2 = emit (PrintReport circle_area sand_pixels sphericity) s1;
                          circle_shape = (cx, cy, r);
                          s3 = (emit (AddArtist circle_shape) s2)
                                 \<lparr>circle_shapes := circle_shapes s2 @ [circle_shape]\<rparr>;
                          annotation = \<lparr>sphericity_of = sphericity, xy = (cx + r, cy),
                                         xytext = (cx + r + 100, cy - 100)\<rparr>
                      in Done ((emit (Annotate annotation) s3)
                                 \<lparr>annotations := annotations s3 @ [annotation]\<rparr>))"

text \<open>\<open>remove_circle\<close>, lines 204 to 208: \<open>[-1]\<close> on an empty list raises.\<close>

definition remove_circle :: "vis \<Rightarrow> vis outcome" where
  "remove_circle s =
     (if circle_shapes s = [] then Raised IndexError s
      else
        let s1 = (emit (CircleRemove (last (circle_shapes s))) s)
                   \<lparr>circle_shapes := butlast (circle_shapes s)\<rparr>
        in if annotations s1 = [] then Raised IndexError s1
           else Done ((emit (AnnotationRemove (last (annotations s1))) s1)
                        \<lparr>annotations := butlast (annotations s1)\<rparr>))"

subsection \<open>add_point and remove_last_point\<close>

definition add_point :: "env \<Rightarrow> real \<Rightarrow> real \<Rightarrow> vis \<Rightarrow> vis outcome" where
  "add_point E x y s =
     and_then (draw_mask E (s\<lparr>xpoints := xpoints s @ [x], ypoints := ypoints s @ [y]\<rparr>))
       (\<lambda>s1. and_then (draw_points s1)
         (\<lambda>s2. and_then (add_circle E s2)
           (\<lambda>s3. Done (emit DrawIdle s3))))"

text \<open>\<open>remove_last_point\<close>, lines 141 to 151; \<open>pop\<close> on an empty list raises.\<close>

definition remove_last_point :: "env \<Rightarrow> vis \<Rightarrow> vis outcome" where
  "remove_last_point E s =
     (if length (xpoints s) > 0 then
        let s1 = s\<lparr>xpoints := butlast (xpoints s)\<rparr>
        in if ypoints s1 = [] then Raised IndexError s1
           else
             and_then (draw_mask E (s1\<lparr>ypoints := butlast (ypoints s1)\<rparr>))
               (\<lambda>s2. and_then (draw_points s2)
                 (\<lambda>s3. and_then (remove_circle s3)
                   (\<lambda>s4. Done (emit DrawIdle s4))))
      else Done s)"

section \<open>Observers\<close>

text \<open>Recognisers for the two logged calls to the external collaborators.\<close>

fun is_predict :: "call \<Rightarrow> bool" where
  "is_predict (Predict ps ls mm) = True"
| "is_predict c = False"

fun is_make_circle :: "call \<Rightarrow> bool" where
  "is_make_circle (MakeCircle ps) = True"
| "is_make_circle c = False"

text \<open>The log entries for removing the old overlay and the old scatter plot, if any.\<close>

definition unplot_calls :: "vis \<Rightarrow> call list" where
  "unplot_calls s = (case mask_plot s of Some old \<Rightarrow> [MaskPlotRemove] | None \<Rightarrow> [])"

definition unscatter_calls :: "vis \<Rightarrow> call list" where
  "unscatter_calls s = (case scatter_plot s of Some old \<Rightarrow> [ScatterRemove] | None \<Rightarrow> [])"

text \<open>
  \<open>adds P cs s s'\<close>: the log of \<open>s'\<close> continues the log of \<open>s\<close>, and the calls added
  that satisfy \<open>P\<close> are exactly \<open>cs\<close>, in this order.
\<close>

definition adds :: "(call \<Rightarrow> bool) \<Rightarrow> call list \<Rightarrow> vis \<Rightarrow> vis \<Rightarrow> bool" where
  "adds P cs s s' \<longleftrightarrow>
     take (length (calls s)) (calls s') = calls s \<and> filter P (emitted s s') = cs"

text \<open>The lengths of the four parallel lists.\<close>

definition stack_lengths :: "vis \<Rightarrow> nat \<times> nat \<times> nat \<times> nat" where
  "stack_lengths s =
     (length (xpoints s), length (ypoints s), length (circle_shapes s), length (annotations s))"

text \<open>The foreground of a mask, as a set of \<open>(x, y)\<close> grid cells.\<close>

definition foreground :: "mask \<Rightarrow> (nat \<times> nat) set" where
  "foreground m = {(x, y). x < shape_w m \<and> y < shape_h m \<and> pixel m y x}"

text \<open>
  The circle a click at \<open>p\<close> gets: the solver's answer for the mask chosen for \<open>p\<close>. It
  depends on the click alone, since only the newest point is ever sent to the predictor.
\<close>

definition circle_for :: "env \<Rightarrow> real \<times> real \<Rightarrow> circle option" where
  "circle_for E p =
     (case best_mask (candidates E p) of
        Inl e \<Rightarrow> None
      | Inr m \<Rightarrow> make_circle E (mask_points m))"

section \<open>States reached by calls that returned\<close>

text \<open>
  \<open>reachable E s\<close>: the state \<open>s\<close> is reached from the initial one by calls of \<open>add_point\<close>
  and \<open>remove_last_point\<close> every one of which returned without raising.
\<close>

inductive reachable :: "env \<Rightarrow> vis \<Rightarrow> bool" for E :: env where
  start: "reachable E init"
| added: "reachable E s \<Longrightarrow> add_point E x y s = Done s' \<Longrightarrow> reachable E s'"
| removed: "reachable E s \<Longrightarrow> remove_last_point E s = Done s' \<Longrightarrow> reachable E s'"

text \<open>
  What holds in those states: the four lists have one length, every circle is the one
  computed for the click at its position, the overlay is shown exactly when a click is
  left, and the stored mask is the one chosen for the newest click.
\<close>

definition in_step :: "env \<Rightarrow> vis \<Rightarrow> bool" where
  "in_step E s \<longleftrightarrow>
     length (ypoints s) = length (xpoints s)
     \<and> length (annotations s) = length (xpoints s)
     \<and> map (circle_for E) (zip (xpoints s) (ypoints s)) = map Some (circle_shapes s)
     \<and> (mask_plot s = None) = (xpoints s = [])
     \<and> (xpoints s = [] \<or>
          (case current_mask s of
             None \<Rightarrow> False
           | Some m \<Rightarrow> best_mask (candidates E (last (xpoints s), last (ypoints s))) = Inr m))"

section \<open>A small environment for concrete runs\<close>

text \<open>
  Four small masks: all background, a single foreground pixel, two foreground pixels
  side by side in one row, two foreground pixels one above the other in one column.
\<close>

definition blank_mask :: mask where
  "blank_mask = \<lparr>shape_h = 1, shape_w = 1, pixel = (\<lambda>y x. False)\<rparr>"

definition dot_mask :: mask where
  "dot_mask = \<lparr>shape_h = 1, shape_w = 1, pixel = (\<lambda>y x. True)\<rparr>"

definition pair_mask :: mask where
  "pair_mask = \<lparr>shape_h = 1, shape_w = 2, pixel = (\<lambda>y x. True)\<rparr>"

definition column_mask :: mask where
  "column_mask = \<lparr>shape_h = 2, shape_w = 1, pixel = (\<lambda>y x. True)\<rparr>"

text \<open>
  A predictor that answers a click at \<open>(0, 0)\<close> with the all-background mask alone, a
  click at \<open>(1, 1)\<close> with the one-pixel mask alone, a click at \<open>(2, 2)\<close> with the
  column mask alone, a click at \<open>(3, 3)\<close> with four candidates of which the second and
  the third are tied at the greatest score, and any other prompt with three candidates
  of which the row of two pixels has the greatest score.
\<close>

definition demo_predict ::
  "(real \<times> real) list \<Rightarrow> int list \<Rightarrow> bool \<Rightarrow> mask list \<times> real list" where
  "demo_predict point_coords point_labels multimask_output =
     (if point_coords = [(0, 0)] then ([blank_mask], [9 / 10])
      else if point_coords = [(1, 1)] then ([dot_mask], [9 / 10])
      else if point_coords = [(2, 2)] then ([column_mask], [9 / 10])
      else if point_coords = [(3, 3)]
        then ([dot_mask, pair_mask, column_mask, blank_mask], [1 / 2, 9 / 10, 9 / 10, 7 / 10])
      else ([blank_mask, pair_mask, dot_mask], [1 / 2, 9 / 10, 7 / 10]))"

text \<open>
  Modelled from the spec: \<open>smallestenclosingcircle.make_circle\<close> is not among the
  source files. The spec has the solver fail on the empty point set and return a
  zero-radius circle for a single point; two points are enclosed by the circle on their
  diameter. This stand-in does that, and on longer lists looks at the first two points
  only, so it is used with masks of at most two foreground pixels.
\<close>

definition demo_make_circle :: "(nat \<times> nat) list \<Rightarrow> circle option" where
  "demo_make_circle pts =
     (case pts of
        [] \<Rightarrow> None
      | [(x, y)] \<Rightarrow> Some (real x, real y, 0)
      | (x1, y1) # (x2, y2) # rest \<Rightarrow>
          Some ((real x1 + real x2) / 2, (real y1 + real y2) / 2,
                sqrt ((real x1 - real x2)\<^sup>2 + (real y1 - real y2)\<^sup>2) / 2))"

definition demo_env :: env where
  "demo_env = \<lparr>predict = demo_predict, make_circle = demo_make_circle\<rparr>"

text \<open>The states after a click at \<open>(5, 5)\<close>, and after a second click at \<open>(2, 2)\<close>.\<close>

definition one_click :: vis where
  "one_click = state_of (add_point demo_env 5 5 init)"

definition two_clicks :: vis where
  "two_clicks = state_of (add_point demo_env 2 2 one_click)"

section \<open>Choosing among the candidates\<close>

lemma best_mask_Nil: "best_mask [] = Inl IndexError"
  by (simp add: best_mask_def)

lemma sort_key_not_Nil: "ms \<noteq> [] \<Longrightarrow> sort_key f ms \<noteq> []"
  by (metis length_sort length_0_conv)

lemma best_mask_last: "ms \<noteq> [] \<Longrightarrow> best_mask ms = Inr (fst (last (sort_key snd ms)))"
  using sort_key_not_Nil [of ms snd] by (auto simp: best_mask_def split: list.splits)

lemma last_sorted_greatest:
  "sorted (map f xs) \<Longrightarrow> x \<in> set xs \<Longrightarrow> f x \<le> f (last xs)"
proof (induction xs)
  case Nil
  then show ?case by simp
next
  case (Cons a xs)
  then show ?case by (cases "xs = []") auto
qed

lemma last_filter_last: "xs \<noteq> [] \<Longrightarrow> P (last xs) \<Longrightarrow> last (filter P xs) = last xs"
  by (cases xs rule: rev_cases) auto

text \<open>
  On a list that is not empty, the mask taken is the first component of the last pair of
  the stably sorted list; that pair is in the list, no pair has a greater score, and
  among the pairs that share its score it is the one that comes last in the list.
\<close>

lemma best_mask_last_greatest:
  assumes "ms \<noteq> []"
  shows "\<exists>m sc. best_mask ms = Inr m \<and> (m, sc) = last (sort_key snd ms) \<and> (m, sc) \<in> set ms
           \<and> (\<forall>p \<in> set ms. snd p \<le> sc)
           \<and> (m, sc) = last (filter (\<lambda>p. snd p = sc) ms)"
proof -
  obtain m sc where p: "last (sort_key snd ms) = (m, sc)"
    by (cases "last (sort_key snd ms)")
  have ne: "sort_key snd ms \<noteq> []"
    using assms by (rule sort_key_not_Nil)
  have mem: "(m, sc) \<in> set ms"
    using last_in_set [OF ne] p by simp
  have greatest: "\<forall>q \<in> set ms. snd q \<le> sc"
    using last_sorted_greatest [of snd "sort_key snd ms"] p by auto
  have "last (filter (\<lambda>q. snd q = sc) (sort_key snd ms)) = last (sort_key snd ms)"
    using p ne by (simp add: last_filter_last)
  then have "last (filter (\<lambda>q. snd q = sc) ms) = (m, sc)"
    using p by (simp add: sort_key_stable)
  then show ?thesis
    using best_mask_last [OF assms] p mem greatest by auto
qed

section \<open>The methods, path by path\<close>

lemma emit_fields [simp]:
  "xpoints (emit c s) = xpoints s"
  "ypoints (emit c s) = ypoints s"
  "scatter_plot (emit c s) = scatter_plot s"
  "current_mask (emit c s) = current_mask s"
  "mask_plot (emit c s) = mask_plot s"
  "circle_shapes (emit c s) = circle_shapes s"
  "annotations (emit c s) = annotations s"
  "all_points (emit c s) = all_points s"
  "calls (emit c s) = calls s @ [c]"
  by (simp_all add: emit_def)

lemma unplot_eq:
  "(case mask_plot s of Some old \<Rightarrow> (emit MaskPlotRemove s)\<lparr>mask_plot := None\<rparr> | None \<Rightarrow> s)
     = s\<lparr>mask_plot := None, calls := calls s @ unplot_calls s\<rparr>"
  by (cases s) (simp add: emit_def unplot_calls_def split: option.splits)

lemma unscatter_eq:
  "(case scatter_plot s of Some old \<Rightarrow> (emit ScatterRemove s)\<lparr>scatter_plot := None\<rparr> | None \<Rightarrow> s)
     = s\<lparr>scatter_plot := None, calls := calls s @ unscatter_calls s\<rparr>"
  by (cases s) (simp add: emit_def unscatter_calls_def split: option.splits)

subsection \<open>draw_mask\<close>

lemma draw_mask_empty:
  "xpoints s = [] \<Longrightarrow>
   draw_mask E s = Done (s\<lparr>mask_plot := None, calls := calls s @ unplot_calls s\<rparr>)"
  by (simp add: draw_mask_def unplot_eq)

lemma draw_mask_no_y:
  "xpoints s \<noteq> [] \<Longrightarrow> ypoints s = [] \<Longrightarrow>
   draw_mask E s = Raised IndexError (s\<lparr>mask_plot := None, calls := calls s @ unplot_calls s\<rparr>)"
  by (simp add: draw_mask_def unplot_eq)

lemma draw_mask_fail:
  "xpoints s \<noteq> [] \<Longrightarrow> ypoints s \<noteq> [] \<Longrightarrow>
   best_mask (candidates E (last (xpoints s), last (ypoints s))) = Inl e \<Longrightarrow>
   draw_mask E s = Raised e (s\<lparr>mask_plot := None,
     calls := calls s @ unplot_calls s @ [Predict [(last (xpoints s), last (ypoints s))] [1] True]\<rparr>)"
  by (simp add: draw_mask_def unplot_eq emit_def)

lemma draw_mask_ok:
  "xpoints s \<noteq> [] \<Longrightarrow> ypoints s \<noteq> [] \<Longrightarrow>
   best_mask (candidates E (last (xpoints s), last (ypoints s))) = Inr m \<Longrightarrow>
   draw_mask E s = Done (s\<lparr>current_mask := Some m, mask_plot := Some m,
     calls := calls s @ unplot_calls s
        @ [Predict [(last (xpoints s), last (ypoints s))] [1] True, Imshow m]\<rparr>)"
  by (simp add: draw_mask_def unplot_eq emit_def)

subsection \<open>draw_points\<close>

lemma draw_points_ok:
  "length (xpoints s) = length (ypoints s) \<Longrightarrow>
   draw_points s = Done (s\<lparr>scatter_plot := Some (xpoints s, ypoints s),
     calls := calls s @ unscatter_calls s @ [Scatter (xpoints s) (ypoints s)]\<rparr>)"
  by (simp add: draw_points_def unscatter_eq emit_def)

lemma draw_points_fail:
  "length (xpoints s) \<noteq> length (ypoints s) \<Longrightarrow>
   draw_points s = Raised ValueError (s\<lparr>scatter_plot := None, calls := calls s @ unscatter_calls s\<rparr>)"
  by (simp add: draw_points_def unscatter_eq emit_def)

subsection \<open>add_circle\<close>

lemma add_circle_no_mask:
  "current_mask s = None \<Longrightarrow> add_circle E s = Raised AttributeError s"
  by (simp add: add_circle_def)

lemma add_circle_no_circle:
  "current_mask s = Some m \<Longrightarrow> make_circle E (mask_points m) = None \<Longrightarrow>
   add_circle E s = Raised TypeError (s\<lparr>all_points := Some (mask_points m),
     calls := calls s @ [MakeCircle (mask_points m)]\<rparr>)"
  by (simp add: add_circle_def emit_def Let_def)

lemma add_circle_zero_radius:
  "current_mask s = Some m \<Longrightarrow> make_circle E (mask_points m) = Some (cx, cy, 0) \<Longrightarrow>
   add_circle E s = Raised ZeroDivisionError (s\<lparr>all_points := Some (mask_points m),
     calls := calls s @ [MakeCircle (mask_points m)]\<rparr>)"
  by (simp add: add_circle_def emit_def Let_def)

lemma add_circle_ok:
  "current_mask s = Some m \<Longrightarrow> make_circle E (mask_points m) = Some (cx, cy, r) \<Longrightarrow> r \<noteq> 0 \<Longrightarrow>
   add_circle E s = Done (s\<lparr>circle_shapes := circle_shapes s @ [(cx, cy, r)],
     annotations := annotations s @
       [\<lparr>sphericity_of = real (length (mask_points m)) / (pi * r * r), xy = (cx + r, cy),
         xytext = (cx + r + 100, cy - 100)\<rparr>],
     all_points := Some (mask_points m),
     calls := calls s @
       [MakeCircle (mask_points m),
        PrintReport (pi * r * r) (length (mask_points m))
          (real (length (mask_points m)) / (pi * r * r)),
        AddArtist (cx, cy, r),
        Annotate \<lparr>sphericity_of = real (length (mask_points m)) / (pi * r * r),
          xy = (cx + r, cy), xytext = (cx + r + 100, cy - 100)\<rparr>]\<rparr>)"
  by (simp add: add_circle_def emit_def Let_def)

subsection \<open>remove_circle\<close>

lemma remove_circle_no_circle:
  "circle_shapes s = [] \<Longrightarrow> remove_circle s = Raised IndexError s"
  by (simp add: remove_circle_def)

lemma remove_circle_no_annotation:
  "circle_shapes s \<noteq> [] \<Longrightarrow> annotations s = [] \<Longrightarrow>
   remove_circle s = Raised IndexError (s\<lparr>circle_shapes := butlast (circle_shapes s),
     calls := calls s @ [CircleRemove (last (circle_shapes s))]\<rparr>)"
  by (simp add: remove_circle_def emit_def)

lemma remove_circle_ok:
  "circle_shapes s \<noteq> [] \<Longrightarrow> annotations s \<noteq> [] \<Longrightarrow>
   remove_circle s = Done (s\<lparr>circle_shapes := butlast (circle_shapes s),
     annotations := butlast (annotations s),
     calls := calls s @ [CircleRemove (last (circle_shapes s)),
                         AnnotationRemove (last (annotations s))]\<rparr>)"
  by (simp add: remove_circle_def emit_def)

subsection \<open>add_point\<close>

lemma add_point_no_candidate:
  "best_mask (candidates E (x, y)) = Inl e \<Longrightarrow>
   add_point E x y s = Raised e (s\<lparr>xpoints := xpoints s @ [x], ypoints := ypoints s @ [y],
     mask_plot := None,
     calls := calls s @ unplot_calls s @ [Predict [(x, y)] [1] True]\<rparr>)"
  by (simp add: add_point_def draw_mask_fail unplot_calls_def)

lemma add_point_sizes_differ:
  "best_mask (candidates E (x, y)) = Inr m \<Longrightarrow> length (xpoints s) \<noteq> length (ypoints s) \<Longrightarrow>
   add_point E x y s = Raised ValueError (s\<lparr>xpoints := xpoints s @ [x], ypoints := ypoints s @ [y],
     scatter_plot := None, current_mask := Some m, mask_plot := Some m,
     calls := calls s @ unplot_calls s @ [Predict [(x, y)] [1] True, Imshow m]
       @ unscatter_calls s\<rparr>)"
  by (simp add: add_point_def draw_mask_ok draw_points_fail unplot_calls_def unscatter_calls_def)

lemma add_point_no_circle:
  "best_mask (candidates E (x, y)) = Inr m \<Longrightarrow> length (xpoints s) = length (ypoints s) \<Longrightarrow>
   make_circle E (mask_points m) = None \<Longrightarrow>
   add_point E x y s = Raised TypeError (s\<lparr>xpoints := xpoints s @ [x], ypoints := ypoints s @ [y],
     scatter_plot := Some (xpoints s @ [x], ypoints s @ [y]),
     current_mask := Some m, mask_plot := Some m, all_points := Some (mask_points m),
     calls := calls s @ unplot_calls s @ [Predict [(x, y)] [1] True, Imshow m]
       @ unscatter_calls s @ [Scatter (xpoints s @ [x]) (ypoints s @ [y]),
          MakeCircle (mask_points m)]\<rparr>)"
  by (simp add: add_point_def draw_mask_ok draw_points_ok add_circle_no_circle
      unplot_calls_def unscatter_calls_def)

lemma add_point_zero_radius:
  "best_mask (candidates E (x, y)) = Inr m \<Longrightarrow> length (xpoints s) = length (ypoints s) \<Longrightarrow>
   make_circle E (mask_points m) = Some (cx, cy, 0) \<Longrightarrow>
   add_point E x y s = Raised ZeroDivisionError (s\<lparr>xpoints := xpoints s @ [x],
     ypoints := ypoints s @ [y],
     scatter_plot := Some (xpoints s @ [x], ypoints s @ [y]),
     current_mask := Some m, mask_plot := Some m, all_points := Some (mask_points m),
     calls := calls s @ unplot_calls s @ [Predict [(x, y)] [1] True, Imshow m]
       @ unscatter_calls s @ [Scatter (xpoints s @ [x]) (ypoints s @ [y]),
          MakeCircle (mask_points m)]\<rparr>)"
  by (simp add: add_point_def draw_mask_ok draw_points_ok add_circle_zero_radius [of _ m E cx cy]
      unplot_calls_def unscatter_calls_def)

lemma add_point_ok:
  "best_mask (candidates E (x, y)) = Inr m \<Longrightarrow> length (xpoints s) = length (ypoints s) \<Longrightarrow>
   make_circle E (mask_points m) = Some (cx, cy, r) \<Longrightarrow> r \<noteq> 0 \<Longrightarrow>
   add_point E x y s = Done (s\<lparr>xpoints := xpoints s @ [x],
     ypoints := ypoints s @ [y],
     scatter_plot := Some (xpoints s @ [x], ypoints s @ [y]),
     current_mask := Some m, mask_plot := Some m,
     circle_shapes := circle_shapes s @ [(cx, cy, r)],
     annotations := annotations s @
       [\<lparr>sphericity_of = real (length (mask_points m)) / (pi * r * r), xy = (cx + r, cy),
         xytext = (cx + r + 100, cy - 100)\<rparr>],
     all_points := Some (mask_points m),
     calls := calls s @ unplot_calls s @ [Predict [(x, y)] [1] True, Imshow m]
       @ unscatter_calls s @ [Scatter (xpoints s @ [x]) (ypoints s @ [y]),
          MakeCircle (mask_points m),
          PrintReport (pi * r * r) (length (mask_points m))
            (real (length (mask_points m)) / (pi * r * r)),
          AddArtist (cx, cy, r),
          Annotate \<lparr>sphericity_of = real (length (mask_points m)) / (pi * r * r),
            xy = (cx + r, cy), xytext = (cx + r + 100, cy - 100)\<rparr>,
          DrawIdle]\<rparr>)"
  by (simp add: add_point_def draw_mask_ok draw_points_ok add_circle_ok [of _ m E cx cy r]
      unplot_calls_def unscatter_calls_def emit_def)

section \<open>The concrete environment, evaluated\<close>

lemma mask_points_blank: "mask_points blank_mask = []"
  by (simp add: mask_points_def blank_mask_def)

lemma mask_points_dot: "mask_points dot_mask = [(0, 0)]"
  by (simp add: mask_points_def dot_mask_def)

lemma mask_points_pair: "mask_points pair_mask = [(0, 0), (1, 0)]"
  by (simp add: mask_points_def pair_mask_def upt_rec)

lemma mask_points_column: "mask_points column_mask = [(0, 0), (0, 1)]"
  by (simp add: mask_points_def column_mask_def upt_rec)

lemma best_origin: "best_mask (candidates demo_env (0, 0)) = Inr blank_mask"
  by (simp add: candidates_def demo_env_def demo_predict_def best_mask_def)

lemma best_one: "best_mask (candidates demo_env (1, 1)) = Inr dot_mask"
  by (simp add: candidates_def demo_env_def demo_predict_def best_mask_def)

lemma best_two: "best_mask (candidates demo_env (2, 2)) = Inr column_mask"
  by (simp add: candidates_def demo_env_def demo_predict_def best_mask_def)

lemma best_five: "best_mask (candidates demo_env (5, 5)) = Inr pair_mask"
  by (simp add: candidates_def demo_env_def demo_predict_def best_mask_def)

lemma demo_circle_blank: "make_circle demo_env (mask_points blank_mask) = None"
  by (simp add: mask_points_blank demo_env_def demo_make_circle_def)

lemma demo_circle_dot: "make_circle demo_env (mask_points dot_mask) = Some (0, 0, 0)"
  by (simp add: mask_points_dot demo_env_def demo_make_circle_def)

lemma demo_circle_pair: "make_circle demo_env (mask_points pair_mask) = Some (1 / 2, 0, 1 / 2)"
  by (simp add: mask_points_pair demo_env_def demo_make_circle_def)

lemma demo_circle_column:
  "make_circle demo_env (mask_points column_mask) = Some (0, 1 / 2, 1 / 2)"
  by (simp add: mask_points_column demo_env_def demo_make_circle_def)

lemma one_click_run: "add_point demo_env 5 5 init = Done one_click"
  by (simp add: one_click_def add_point_ok [OF best_five _ demo_circle_pair] init_def)

lemma one_click_fields:
  "xpoints one_click = [5]" "ypoints one_click = [5]"
  "circle_shapes one_click = [(1 / 2, 0, 1 / 2)]" "length (annotations one_click) = 1"
  "current_mask one_click = Some pair_mask" "mask_plot one_click = Some pair_mask"
  by (simp_all add: one_click_def add_point_ok [OF best_five _ demo_circle_pair] init_def)

lemma two_clicks_run: "add_point demo_env 2 2 one_click = Done two_clicks"
  by (simp add: two_clicks_def add_point_ok [OF best_two _ demo_circle_column] one_click_fields)

lemma two_clicks_fields:
  "xpoints two_clicks = [5, 2]" "ypoints two_clicks = [5, 2]"
  "circle_shapes two_clicks = [(1 / 2, 0, 1 / 2), (0, 1 / 2, 1 / 2)]"
  "length (annotations two_clicks) = 2"
  "current_mask two_clicks = Some column_mask" "mask_plot two_clicks = Some column_mask"
  by (simp_all add: two_clicks_def add_point_ok [OF best_two _ demo_circle_column]
      one_click_fields)

lemma reachable_one_click: "reachable demo_env one_click"
  using reachable.start one_click_run by (rule reachable.added)

lemma reachable_two_clicks: "reachable demo_env two_clicks"
  using reachable_one_click two_clicks_run by (rule reachable.added)

subsection \<open>The paths of add_point are exhaustive\<close>

lemma add_point_paths:
  obtains
    (no_candidate) e where "best_mask (candidates E (x, y)) = Inl e"
  | (sizes_differ) m where "best_mask (candidates E (x, y)) = Inr m"
      and "length (xpoints s) \<noteq> length (ypoints s)"
  | (no_circle) m where "best_mask (candidates E (x, y)) = Inr m"
      and "length (xpoints s) = length (ypoints s)"
      and "make_circle E (mask_points m) = None"
  | (zero_radius) m cx cy where "best_mask (candidates E (x, y)) = Inr m"
      and "length (xpoints s) = length (ypoints s)"
      and "make_circle E (mask_points m) = Some (cx, cy, 0)"
  | (ok) m cx cy r where "best_mask (candidates E (x, y)) = Inr m"
      and "length (xpoints s) = length (ypoints s)"
      and "make_circle E (mask_points m) = Some (cx, cy, r)" and "r \<noteq> 0"
proof (cases "best_mask (candidates E (x, y))")
  case (Inl e)
  then show ?thesis by (rule no_candidate)
next
  case (Inr m)
  show ?thesis
  proof (cases "length (xpoints s) = length (ypoints s)")
    case False
    with Inr show ?thesis by (rule sizes_differ)
  next
    case True
    show ?thesis
    proof (cases "make_circle E (mask_points m)")
      case None
      with Inr True show ?thesis by (rule no_circle)
    next
      case (Some c)
      obtain cx cy r where c: "c = (cx, cy, r)" by (cases c)
      show ?thesis
      proof (cases "r = 0")
        case True
        with Inr \<open>length (xpoints s) = length (ypoints s)\<close> Some c show ?thesis
          by (intro zero_radius) simp_all
      next
        case False
        with Inr True Some c show ?thesis
          by (intro ok) simp_all
      qed
    qed
  qed
qed

lemma add_point_pushes:
  "xpoints (state_of (add_point E x y s)) = xpoints s @ [x]
   \<and> ypoints (state_of (add_point E x y s)) = ypoints s @ [y]"
proof (cases rule: add_point_paths [where E = E and x = x and y = y and s = s])
  case (no_candidate e)
  then show ?thesis by (simp add: add_point_no_candidate)
next
  case (sizes_differ m)
  then show ?thesis by (simp add: add_point_sizes_differ)
next
  case (no_circle m)
  then show ?thesis by (simp add: add_point_no_circle)
next
  case (zero_radius m cx cy)
  then show ?thesis by (simp add: add_point_zero_radius)
next
  case (ok m cx cy r)
  then show ?thesis by (simp add: add_point_ok)
qed

lemma add_point_DoneD:
  assumes "add_point E x y s = Done s'"
  shows "\<exists>m cx cy r. best_mask (candidates E (x, y)) = Inr m
           \<and> length (xpoints s) = length (ypoints s)
           \<and> make_circle E (mask_points m) = Some (cx, cy, r) \<and> r \<noteq> 0"
proof (cases rule: add_point_paths [where E = E and x = x and y = y and s = s])
  case (no_candidate e)
  with assms show ?thesis by (simp add: add_point_no_candidate)
next
  case (sizes_differ m)
  with assms show ?thesis by (simp add: add_point_sizes_differ)
next
  case (no_circle m)
  with assms show ?thesis by (simp add: add_point_no_circle)
next
  case (zero_radius m cx cy)
  with assms show ?thesis by (simp add: add_point_zero_radius)
next
  case (ok m cx cy r)
  then show ?thesis by blast
qed

subsection \<open>remove_last_point\<close>

lemma remove_last_point_empty: "xpoints s = [] \<Longrightarrow> remove_last_point E s = Done s"
  by (simp add: remove_last_point_def)

lemma butlast_Nil_same_length:
  "length ys = length xs \<Longrightarrow> butlast xs = [] \<Longrightarrow> butlast ys = []"
  by (metis length_butlast length_0_conv)

lemma butlast_not_Nil_same_length:
  "length ys = length xs \<Longrightarrow> butlast xs \<noteq> [] \<Longrightarrow> butlast ys \<noteq> [] \<and> ys \<noteq> [] \<and> xs \<noteq> []"
  by (metis butlast.simps(1) length_butlast length_0_conv)

lemma remove_last_point_last:
  assumes "xpoints s \<noteq> []" and "butlast (xpoints s) = []"
    and "length (ypoints s) = length (xpoints s)"
    and "circle_shapes s \<noteq> []" and "annotations s \<noteq> []"
  shows "remove_last_point E s = Done (s\<lparr>xpoints := [], ypoints := [],
     scatter_plot := Some ([], []), mask_plot := None,
     circle_shapes := butlast (circle_shapes s), annotations := butlast (annotations s),
     calls := calls s @ unplot_calls s @ unscatter_calls s
       @ [Scatter [] [], CircleRemove (last (circle_shapes s)),
          AnnotationRemove (last (annotations s)), DrawIdle]\<rparr>)"
proof -
  have ys: "ypoints s \<noteq> []" "butlast (ypoints s) = []"
    using assms butlast_Nil_same_length [of "ypoints s" "xpoints s"] by auto
  show ?thesis
    using assms ys
    by (simp add: remove_last_point_def draw_mask_empty draw_points_ok remove_circle_ok
        unplot_calls_def unscatter_calls_def emit_def)
qed

lemma remove_last_point_more:
  assumes "butlast (xpoints s) \<noteq> []"
    and "length (ypoints s) = length (xpoints s)"
    and "best_mask (candidates E (last (butlast (xpoints s)), last (butlast (ypoints s)))) = Inr m"
    and "circle_shapes s \<noteq> []" and "annotations s \<noteq> []"
  shows "remove_last_point E s = Done (s\<lparr>xpoints := butlast (xpoints s),
     ypoints := butlast (ypoints s),
     scatter_plot := Some (butlast (xpoints s), butlast (ypoints s)),
     current_mask := Some m, mask_plot := Some m,
     circle_shapes := butlast (circle_shapes s), annotations := butlast (annotations s),
     calls := calls s @ unplot_calls s
       @ [Predict [(last (butlast (xpoints s)), last (butlast (ypoints s)))] [1] True, Imshow m]
       @ unscatter_calls s
       @ [Scatter (butlast (xpoints s)) (butlast (ypoints s)),
          CircleRemove (last (circle_shapes s)),
          AnnotationRemove (last (annotations s)), DrawIdle]\<rparr>)"
proof -
  have ne: "butlast (ypoints s) \<noteq> []" "ypoints s \<noteq> []" "xpoints s \<noteq> []"
    using assms butlast_not_Nil_same_length [of "ypoints s" "xpoints s"] by auto
  show ?thesis
    using assms ne
    by (simp add: remove_last_point_def draw_mask_ok draw_points_ok remove_circle_ok
        unplot_calls_def unscatter_calls_def emit_def)
qed

section \<open>What holds in the states reached by calls that returned\<close>

lemma butlast_zip_same_length:
  "length xs = length ys \<Longrightarrow> butlast (zip xs ys) = zip (butlast xs) (butlast ys)"
  by (simp add: butlast_conv_take take_zip)

lemma in_step_init: "in_step E init"
  by (simp add: in_step_def init_def)

lemma in_step_lengths:
  assumes "in_step E s"
  shows "length (ypoints s) = length (xpoints s)"
    and "length (annotations s) = length (xpoints s)"
    and "length (circle_shapes s) = length (xpoints s)"
proof -
  show y: "length (ypoints s) = length (xpoints s)"
    and "length (annotations s) = length (xpoints s)"
    using assms by (simp_all add: in_step_def)
  have "length (map (circle_for E) (zip (xpoints s) (ypoints s))) = length (map Some (circle_shapes s))"
    using assms by (simp add: in_step_def)
  then show "length (circle_shapes s) = length (xpoints s)"
    using y by simp
qed

lemma circle_for_SomeD:
  "circle_for E p = Some c \<Longrightarrow> \<exists>m. best_mask (candidates E p) = Inr m \<and> make_circle E (mask_points m) = Some c"
  by (cases "best_mask (candidates E p)") (simp_all add: circle_for_def)

text \<open>The click below the newest one still has its circle, and the predictor an answer for it.\<close>

lemma in_step_previous:
  assumes "in_step E s" and "butlast (xpoints s) \<noteq> []"
  shows "map (circle_for E) (zip (butlast (xpoints s)) (butlast (ypoints s)))
           = map Some (butlast (circle_shapes s))"
    and "\<exists>m. best_mask (candidates E (last (butlast (xpoints s)), last (butlast (ypoints s)))) = Inr m"
proof -
  have len: "length (xpoints s) = length (ypoints s)"
    using in_step_lengths(1) [OF assms(1)] by simp
  have "map (circle_for E) (zip (xpoints s) (ypoints s)) = map Some (circle_shapes s)"
    using assms(1) by (simp add: in_step_def)
  then have "butlast (map (circle_for E) (zip (xpoints s) (ypoints s)))
               = butlast (map Some (circle_shapes s))"
    by simp
  then show prev: "map (circle_for E) (zip (butlast (xpoints s)) (butlast (ypoints s)))
           = map Some (butlast (circle_shapes s))"
    using len by (simp add: map_butlast [symmetric] butlast_zip_same_length)
  have ne: "butlast (ypoints s) \<noteq> []"
    using assms(2) butlast_not_Nil_same_length [of "ypoints s" "xpoints s"] len by simp
  have zne: "zip (butlast (xpoints s)) (butlast (ypoints s)) \<noteq> []"
    using assms(2) ne by (cases "butlast (xpoints s)"; cases "butlast (ypoints s)") simp_all
  have cne: "butlast (circle_shapes s) \<noteq> []"
    using prev zne by (metis map_is_Nil_conv)
  have "last (map (circle_for E) (zip (butlast (xpoints s)) (butlast (ypoints s))))
          = last (map Some (butlast (circle_shapes s)))"
    using prev by simp
  then have "circle_for E (last (zip (butlast (xpoints s)) (butlast (ypoints s))))
          = Some (last (butlast (circle_shapes s)))"
    using zne cne by (simp add: last_map)
  moreover have "last (zip (butlast (xpoints s)) (butlast (ypoints s)))
          = (last (butlast (xpoints s)), last (butlast (ypoints s)))"
    using assms(2) ne len by (simp add: last_zip)
  ultimately show "\<exists>m. best_mask (candidates E (last (butlast (xpoints s)), last (butlast (ypoints s)))) = Inr m"
    using circle_for_SomeD by fastforce
qed

lemma in_step_add_point:
  assumes "in_step E s" and "add_point E x y s = Done s'"
  shows "in_step E s'"
proof -
  obtain m cx cy r where m: "best_mask (candidates E (x, y)) = Inr m"
    and len: "length (xpoints s) = length (ypoints s)"
    and c: "make_circle E (mask_points m) = Some (cx, cy, r)" and r: "r \<noteq> 0"
    using add_point_DoneD [OF assms(2)] by blast
  have cf: "circle_for E (x, y) = Some (cx, cy, r)"
    using m c by (simp add: circle_for_def)
  have old: "map (circle_for E) (zip (xpoints s) (ypoints s)) = map Some (circle_shapes s)"
    and ann: "length (annotations s) = length (xpoints s)"
    using assms(1) by (simp_all add: in_step_def)
  have s': "s' = state_of (add_point E x y s)"
    using assms(2) by simp
  show ?thesis
    unfolding s' add_point_ok [OF m len c r]
    using len cf old ann m by (simp add: in_step_def)
qed

lemma in_step_remove_last_point:
  assumes "in_step E s" and "remove_last_point E s = Done s'"
  shows "in_step E s'"
proof (cases "xpoints s = []")
  case True
  then show ?thesis
    using assms by (simp add: remove_last_point_empty)
next
  case False
  have len: "length (ypoints s) = length (xpoints s)"
    and alen: "length (annotations s) = length (xpoints s)"
    and clen: "length (circle_shapes s) = length (xpoints s)"
    using in_step_lengths [OF assms(1)] by simp_all
  have cne: "circle_shapes s \<noteq> []" and ane: "annotations s \<noteq> []"
    using False alen clen by auto
  have s': "s' = state_of (remove_last_point E s)"
    using assms(2) by simp
  show ?thesis
  proof (cases "butlast (xpoints s) = []")
    case True
    have "length (xpoints s) = 1"
      using True False by (cases "xpoints s") (simp_all split: if_splits)
    then have "butlast (circle_shapes s) = []" and "butlast (annotations s) = []"
      using clen alen by (metis One_nat_def diff_Suc_1 length_0_conv length_butlast)+
    then show ?thesis
      unfolding s' remove_last_point_last [OF False True len cne ane]
      by (simp add: in_step_def)
  next
    case more: False
    obtain m where m: "best_mask (candidates E (last (butlast (xpoints s)), last (butlast (ypoints s)))) = Inr m"
      using in_step_previous(2) [OF assms(1) more] by blast
    show ?thesis
      unfolding s' remove_last_point_more [OF more len m cne ane]
      using in_step_previous(1) [OF assms(1) more] more m len alen
      by (simp add: in_step_def)
  qed
qed

lemma reachable_in_step: "reachable E s \<Longrightarrow> in_step E s"
proof (induction rule: reachable.induct)
  case start
  show ?case by (rule in_step_init)
next
  case (added s x y s')
  then show ?case by (simp add: in_step_add_point)
next
  case (removed s s')
  then show ?case by (simp add: in_step_remove_last_point)
qed

section \<open>What every path of a method leaves alone\<close>

lemma state_of_and_then_field:
  assumes "f (state_of r) = v" and "\<And>s1. f (state_of (g s1)) = f s1"
  shows "f (state_of (and_then r g)) = v"
  using assms by (cases r) simp_all

lemma draw_mask_keeps_points:
  "xpoints (state_of (draw_mask E s)) = xpoints s"
  "ypoints (state_of (draw_mask E s)) = ypoints s"
  by (simp_all add: draw_mask_def unplot_eq Let_def split: sum.splits)

lemma draw_points_keeps_points:
  "xpoints (state_of (draw_points s)) = xpoints s"
  "ypoints (state_of (draw_points s)) = ypoints s"
  by (simp_all add: draw_points_def unscatter_eq Let_def)

lemma remove_circle_keeps_points:
  "xpoints (state_of (remove_circle s)) = xpoints s"
  "ypoints (state_of (remove_circle s)) = ypoints s"
  by (simp_all add: remove_circle_def Let_def)

lemma remove_tail_keeps_xpoints:
  "xpoints (state_of (and_then (draw_mask E s)
      (\<lambda>s2. and_then (draw_points s2)
        (\<lambda>s3. and_then (remove_circle s3) (\<lambda>s4. Done (emit DrawIdle s4)))))) = xpoints s"
proof (rule state_of_and_then_field [where f = xpoints])
  show "xpoints (state_of (draw_mask E s)) = xpoints s"
    by (rule draw_mask_keeps_points)
next
  fix s1
  show "xpoints (state_of (and_then (draw_points s1)
      (\<lambda>s3. and_then (remove_circle s3) (\<lambda>s4. Done (emit DrawIdle s4))))) = xpoints s1"
  proof (rule state_of_and_then_field [where f = xpoints])
    show "xpoints (state_of (draw_points s1)) = xpoints s1"
      by (rule draw_points_keeps_points)
  next
    fix s2
    show "xpoints (state_of (and_then (remove_circle s2) (\<lambda>s4. Done (emit DrawIdle s4)))) = xpoints s2"
      by (rule state_of_and_then_field [where f = xpoints])
        (simp_all add: remove_circle_keeps_points)
  qed
qed

lemma remove_tail_keeps_ypoints:
  "ypoints (state_of (and_then (draw_mask E s)
      (\<lambda>s2. and_then (draw_points s2)
        (\<lambda>s3. and_then (remove_circle s3) (\<lambda>s4. Done (emit DrawIdle s4)))))) = ypoints s"
proof (rule state_of_and_then_field [where f = ypoints])
  show "ypoints (state_of (draw_mask E s)) = ypoints s"
    by (rule draw_mask_keeps_points)
next
  fix s1
  show "ypoints (state_of (and_then (draw_points s1)
      (\<lambda>s3. and_then (remove_circle s3) (\<lambda>s4. Done (emit DrawIdle s4))))) = ypoints s1"
  proof (rule state_of_and_then_field [where f = ypoints])
    show "ypoints (state_of (draw_points s1)) = ypoints s1"
      by (rule draw_points_keeps_points)
  next
    fix s2
    show "ypoints (state_of (and_then (remove_circle s2) (\<lambda>s4. Done (emit DrawIdle s4)))) = ypoints s2"
      by (rule state_of_and_then_field [where f = ypoints])
        (simp_all add: remove_circle_keeps_points)
  qed
qed

text \<open>
  Whatever its outcome, \<open>remove_last_point\<close> pops the newest x coordinate, and the newest
  y coordinate with it.
\<close>

lemma remove_last_point_pops:
  "xpoints (state_of (remove_last_point E s)) = butlast (xpoints s)"
  "ypoints (state_of (remove_last_point E s))
     = (if xpoints s = [] then ypoints s else butlast (ypoints s))"
  by (simp_all add: remove_last_point_def Let_def remove_tail_keeps_xpoints
      remove_tail_keeps_ypoints)

lemma add_point_Done_stacks:
  assumes "add_point E x y s = Done s'"
  shows "\<exists>c a. xpoints s' = xpoints s @ [x] \<and> ypoints s' = ypoints s @ [y]
           \<and> circle_shapes s' = circle_shapes s @ [c] \<and> annotations s' = annotations s @ [a]
           \<and> circle_for E (x, y) = Some c"
proof -
  obtain m cx cy r where m: "best_mask (candidates E (x, y)) = Inr m"
    and len: "length (xpoints s) = length (ypoints s)"
    and c: "make_circle E (mask_points m) = Some (cx, cy, r)" and r: "r \<noteq> 0"
    using add_point_DoneD [OF assms] by blast
  have s': "s' = state_of (add_point E x y s)"
    using assms by simp
  show ?thesis
    unfolding s' add_point_ok [OF m len c r] using m c by (simp add: circle_for_def)
qed

lemma filter_unplot_unscatter [simp]:
  "filter is_predict (unplot_calls s) = []"
  "filter is_make_circle (unplot_calls s) = []"
  "filter is_predict (unscatter_calls s) = []"
  "filter is_make_circle (unscatter_calls s) = []"
  by (simp_all add: unplot_calls_def unscatter_calls_def split: option.splits)

section \<open>Removing a point\<close>

text \<open>
  C9. On an empty prompt stack \<open>remove_last_point\<close> returns without raising and
  returns the very state it was given, in whatever state it is called: the stored mask
  is unchanged, nothing is popped, and no call reaches the plotting library, the request
  to redraw included. In a state reached by calls that returned, the other three lists
  are empty too, and stay empty, and no overlay is shown.
\<close>

theorem remove_last_point_empty_stack_noop:
  "(xpoints s = [] \<longrightarrow>
      remove_last_point E s = Done s \<and> emitted s (state_of (remove_last_point E s)) = [])
   \<and> (reachable E s \<and> xpoints s = [] \<longrightarrow>
        ypoints s = [] \<and> circle_shapes s = [] \<and> annotations s = [] \<and> mask_plot s = None)"
proof -
  have noop: "remove_last_point E s = Done s \<and> emitted s (state_of (remove_last_point E s)) = []"
    if "xpoints s = []"
    using that by (simp add: remove_last_point_empty emitted_def)
  have empty: "ypoints s = [] \<and> circle_shapes s = [] \<and> annotations s = [] \<and> mask_plot s = None"
    if r: "reachable E s" and x: "xpoints s = []"
  proof -
    have step: "in_step E s"
      using r by (rule reachable_in_step)
    then show ?thesis
      using in_step_lengths [OF step] x by (simp add: in_step_def)
  qed
  show ?thesis
    using noop empty by blast
qed

theorem remove_last_point_empty_stack_noop_witness:
  "reachable demo_env init \<and> xpoints init = [] \<and> remove_last_point demo_env init = Done init
   \<and> emitted init (state_of (remove_last_point demo_env init)) = []
   \<and> circle_shapes init = [] \<and> annotations init = []"
  using remove_last_point_empty_stack_noop [where s = init and E = demo_env]
    reachable.start [of demo_env]
  by (simp add: init_def emitted_def)

text \<open>
  As long as no call has raised: in a state holding at least two points,
  \<open>remove_last_point\<close> returns; it pops the newest point, takes as the stored mask the
  one chosen for the point that is now on top, pops the last circle and the last
  annotation, and never calls the circle solver. The circles left are, position by
  position, the ones that were computed when the remaining points were added. In
  particular, after two calls of \<open>add_point\<close> that returned and one call of
  \<open>remove_last_point\<close>, the circle stack is the one the first call left.
\<close>

lemma remove_last_point_pops_newest_circle:
  "(reachable E s \<and> 2 \<le> length (xpoints s) \<longrightarrow>
      (\<exists>s' m. remove_last_point E s = Done s'
         \<and> xpoints s' = butlast (xpoints s) \<and> ypoints s' = butlast (ypoints s)
         \<and> best_mask (candidates E (last (xpoints s'), last (ypoints s'))) = Inr m
         \<and> current_mask s' = Some m
         \<and> circle_shapes s' = butlast (circle_shapes s)
         \<and> annotations s' = butlast (annotations s)
         \<and> map (circle_for E) (zip (xpoints s') (ypoints s')) = map Some (circle_shapes s')
         \<and> filter is_make_circle (emitted s s') = []))
   \<and> (add_point E x1 y1 init = Done s1 \<and> add_point E x2 y2 s1 = Done s2 \<longrightarrow>
      (\<exists>s3. remove_last_point E s2 = Done s3 \<and> xpoints s3 = [x1] \<and> ypoints s3 = [y1]
         \<and> circle_shapes s3 = circle_shapes s1
         \<and> map Some (circle_shapes s1) = [circle_for E (x1, y1)]))"
proof -
  have general: "\<exists>s' m. remove_last_point E t = Done s'
         \<and> xpoints s' = butlast (xpoints t) \<and> ypoints s' = butlast (ypoints t)
         \<and> best_mask (candidates E (last (xpoints s'), last (ypoints s'))) = Inr m
         \<and> current_mask s' = Some m
         \<and> circle_shapes s' = butlast (circle_shapes t)
         \<and> annotations s' = butlast (annotations t)
         \<and> map (circle_for E) (zip (xpoints s') (ypoints s')) = map Some (circle_shapes s')
         \<and> filter is_make_circle (emitted t s') = []"
    if r: "reachable E t" and two: "2 \<le> length (xpoints t)" for t
  proof -
    have step: "in_step E t"
      using r by (rule reachable_in_step)
    have more: "butlast (xpoints t) \<noteq> []"
      using two by (cases "xpoints t") (auto split: if_splits)
    have len: "length (ypoints t) = length (xpoints t)"
      and cne: "circle_shapes t \<noteq> []" and ane: "annotations t \<noteq> []"
      using in_step_lengths [OF step] two by auto
    obtain m where m: "best_mask (candidates E (last (butlast (xpoints t)), last (butlast (ypoints t)))) = Inr m"
      using in_step_previous(2) [OF step more] by blast
    show ?thesis
      using in_step_previous(1) [OF step more] m
      by (simp add: remove_last_point_more [OF more len m cne ane] emitted_def)
  qed
  have scenario: "\<exists>s3. remove_last_point E s2 = Done s3 \<and> xpoints s3 = [x1] \<and> ypoints s3 = [y1]
         \<and> circle_shapes s3 = circle_shapes s1
         \<and> map Some (circle_shapes s1) = [circle_for E (x1, y1)]"
    if a1: "add_point E x1 y1 init = Done s1" and a2: "add_point E x2 y2 s1 = Done s2"
  proof -
    have r1: "reachable E s1"
      using reachable.start a1 by (rule reachable.added)
    have r2: "reachable E s2"
      using r1 a2 by (rule reachable.added)
    obtain c1 b1 where s1: "xpoints s1 = [x1]" "ypoints s1 = [y1]" "circle_shapes s1 = [c1]"
      "circle_for E (x1, y1) = Some c1"
      using add_point_Done_stacks [OF a1] by (auto simp: init_def)
    obtain c2 b2 where s2: "xpoints s2 = [x1, x2]" "ypoints s2 = [y1, y2]"
      "circle_shapes s2 = [c1, c2]"
      using add_point_Done_stacks [OF a2] s1 by auto
    have "2 \<le> length (xpoints s2)"
      using s2 by simp
    from general [OF r2 this] s1 s2 show ?thesis
      by auto
  qed
  show ?thesis
    using general [of s] scenario by blast
qed

text \<open>
  In every state, and whatever the outcome of the two calls, \<open>add_point\<close> followed by
  \<open>remove_last_point\<close> leaves \<open>xpoints\<close> and \<open>ypoints\<close> as they were before. In a state
  reached by calls that returned, and when \<open>add_point\<close> returns, \<open>remove_last_point\<close>
  returns too and the circle and annotation stacks are back at what they were before,
  in length and in content.
\<close>

lemma add_point_returned_then_remove_last_point:
  "xpoints (state_of (remove_last_point E (state_of (add_point E x y s)))) = xpoints s
   \<and> ypoints (state_of (remove_last_point E (state_of (add_point E x y s)))) = ypoints s
   \<and> (reachable E s \<and> add_point E x y s = Done s1 \<longrightarrow>
        (\<exists>s2. remove_last_point E s1 = Done s2
           \<and> xpoints s2 = xpoints s \<and> ypoints s2 = ypoints s
           \<and> length (circle_shapes s2) = length (circle_shapes s)
           \<and> length (annotations s2) = length (annotations s)
           \<and> circle_shapes s2 = circle_shapes s \<and> annotations s2 = annotations s))"
proof -
  have prompt: "xpoints (state_of (remove_last_point E (state_of (add_point E x y s)))) = xpoints s"
    "ypoints (state_of (remove_last_point E (state_of (add_point E x y s)))) = ypoints s"
    using add_point_pushes [of E x y s] by (simp_all add: remove_last_point_pops)
  have undo: "\<exists>s2. remove_last_point E s1 = Done s2
           \<and> xpoints s2 = xpoints s \<and> ypoints s2 = ypoints s
           \<and> length (circle_shapes s2) = length (circle_shapes s)
           \<and> length (annotations s2) = length (annotations s)
           \<and> circle_shapes s2 = circle_shapes s \<and> annotations s2 = annotations s"
    if r: "reachable E s" and a: "add_point E x y s = Done s1"
  proof -
    have step: "in_step E s1"
      using reachable.added [OF r a] by (rule reachable_in_step)
    obtain c b where s1: "xpoints s1 = xpoints s @ [x]" "ypoints s1 = ypoints s @ [y]"
      "circle_shapes s1 = circle_shapes s @ [c]" "annotations s1 = annotations s @ [b]"
      using add_point_Done_stacks [OF a] by blast
    have len: "length (ypoints s1) = length (xpoints s1)"
      using in_step_lengths(1) [OF step] .
    have ne: "xpoints s1 \<noteq> []" "circle_shapes s1 \<noteq> []" "annotations s1 \<noteq> []"
      using s1 by simp_all
    have before: "butlast (xpoints s1) = xpoints s" "butlast (ypoints s1) = ypoints s"
      "butlast (circle_shapes s1) = circle_shapes s" "butlast (annotations s1) = annotations s"
      using s1 by simp_all
    have len0: "length (ypoints s) = length (xpoints s)"
      using len s1 by simp
    show ?thesis
    proof (cases "butlast (xpoints s1) = []")
      case True
      then have "xpoints s = []" and "ypoints s = []"
        using before len0 by auto
      then show ?thesis
        using before by (simp add: remove_last_point_last [OF ne(1) True len ne(2) ne(3)])
    next
      case False
      obtain m where m: "best_mask (candidates E (last (butlast (xpoints s1)), last (butlast (ypoints s1)))) = Inr m"
        using in_step_previous(2) [OF step False] by blast
      show ?thesis
        using before by (simp add: remove_last_point_more [OF False len m ne(2) ne(3)])
    qed
  qed
  show ?thesis
    using prompt undo by blast
qed

section \<open>The roundness computation\<close>

lemma set_mask_points: "set (mask_points m) = foreground m"
  by (auto simp: mask_points_def foreground_def)

text \<open>The scan is the full grid, column by column, filtered by the mask.\<close>

lemma mask_points_filter_grid:
  "mask_points m
     = filter (\<lambda>(x, y). pixel m y x) (List.product [0..<shape_w m] [0..<shape_h m])"
  by (simp add: mask_points_def product_concat_map filter_concat filter_map comp_def)

lemma distinct_mask_points: "distinct (mask_points m)"
  by (simp add: mask_points_filter_grid distinct_product)

lemma length_mask_points: "length (mask_points m) = card (foreground m)"
  using distinct_card [OF distinct_mask_points, of m] by (simp add: set_mask_points)

text \<open>
  C4, as the code has it. Whenever the solver returns a circle of non-zero radius \<open>r\<close>
  for the cells collected from the mask, \<open>add_circle\<close> returns, and the sphericity it
  attaches to the new annotation is the number of foreground cells of the grid divided
  by \<open>\<pi> r\<^sup>2\<close>; the cells handed to the solver are exactly the foreground cells, each
  once, and the circle pushed is the solver's.
\<close>

theorem add_circle_roundness_nonzero_radius:
  assumes "current_mask s = Some m"
    and "make_circle E (mask_points m) = Some (cx, cy, r)"
    and "r \<noteq> 0"
  shows "\<exists>s'. add_circle E s = Done s'
           \<and> set (mask_points m) = foreground m \<and> distinct (mask_points m)
           \<and> sphericity_of (last (annotations s')) = real (card (foreground m)) / (pi * r\<^sup>2)
           \<and> last (circle_shapes s') = (cx, cy, r)
           \<and> filter is_make_circle (emitted s s') = [MakeCircle (mask_points m)]"
  using assms
  by (simp add: add_circle_ok [OF assms] set_mask_points distinct_mask_points
      length_mask_points power2_eq_square emitted_def)

text \<open>
  The mask with two foreground pixels side by side: the circle on their diameter has
  radius \<open>1/2\<close>, and the sphericity is \<open>2 / (\<pi> / 4) = 8 / \<pi>\<close>.
\<close>

theorem add_circle_roundness_nonzero_radius_witness:
  "current_mask (init\<lparr>current_mask := Some pair_mask\<rparr>) = Some pair_mask
   \<and> make_circle demo_env (mask_points pair_mask) = Some (1 / 2, 0, 1 / 2)
   \<and> (1 / 2 :: real) \<noteq> 0
   \<and> foreground pair_mask = {(0, 0), (1, 0)}
   \<and> (\<exists>s'. add_circle demo_env (init\<lparr>current_mask := Some pair_mask\<rparr>) = Done s'
          \<and> sphericity_of (last (annotations s')) = 8 / pi)"
proof -
  have fg: "foreground pair_mask = {(0, 0), (1, 0)}"
    using set_mask_points [of pair_mask] by (simp add: mask_points_pair)
  show ?thesis
    using add_circle_roundness_nonzero_radius
        [of "init\<lparr>current_mask := Some pair_mask\<rparr>" pair_mask demo_env "1 / 2" 0 "1 / 2"]
      demo_circle_pair fg
    by (auto simp: power2_eq_square)
qed

text \<open>
  The claim as the spec states it fails for the mask with a single foreground pixel: the
  solver's circle has radius zero, the division raises, and no roundness is computed.
\<close>

theorem add_circle_single_pixel_no_roundness:
  "(0, 0) \<in> foreground dot_mask
   \<and> make_circle demo_env (mask_points dot_mask) = Some (0, 0, 0)
   \<and> raised (add_circle demo_env (init\<lparr>current_mask := Some dot_mask\<rparr>)) = Some ZeroDivisionError
   \<and> annotations (state_of (add_circle demo_env (init\<lparr>current_mask := Some dot_mask\<rparr>))) = []"
proof -
  have "(0, 0) \<in> foreground dot_mask"
    by (simp add: foreground_def dot_mask_def)
  then show ?thesis
    by (simp add: add_circle_zero_radius [OF _ demo_circle_dot] demo_circle_dot init_def)
qed

text \<open>
  C10, as the code has it. The division is not guarded. When the solver's radius is
  zero, as for a single foreground pixel, the circle area is zero and \<open>add_circle\<close>
  raises \<open>ZeroDivisionError\<close> right after the call to the solver: nothing is reported as
  undefined, nothing is printed, and no circle and no annotation is pushed.
\<close>

theorem add_circle_zero_area_raises:
  assumes "current_mask s = Some m"
    and "make_circle E (mask_points m) = Some (cx, cy, 0)"
  shows "raised (add_circle E s) = Some ZeroDivisionError
       \<and> circle_shapes (state_of (add_circle E s)) = circle_shapes s
       \<and> annotations (state_of (add_circle E s)) = annotations s
       \<and> emitted s (state_of (add_circle E s)) = [MakeCircle (mask_points m)]"
  by (simp add: add_circle_zero_radius [OF assms] emitted_def)

theorem add_circle_zero_area_raises_witness:
  "current_mask (init\<lparr>current_mask := Some dot_mask\<rparr>) = Some dot_mask
   \<and> make_circle demo_env (mask_points dot_mask) = Some (0, 0, 0)
   \<and> raised (add_circle demo_env (init\<lparr>current_mask := Some dot_mask\<rparr>)) = Some ZeroDivisionError
   \<and> circle_shapes (state_of (add_circle demo_env (init\<lparr>current_mask := Some dot_mask\<rparr>))) = []
   \<and> annotations (state_of (add_circle demo_env (init\<lparr>current_mask := Some dot_mask\<rparr>))) = []"
  using add_circle_zero_area_raises
      [of "init\<lparr>current_mask := Some dot_mask\<rparr>" dot_mask demo_env 0 0]
    demo_circle_dot
  by (simp add: init_def)

text \<open>
  The claim as the spec states it fails for a click whose mask is a single pixel: the
  call raises the division error instead of reporting an undefined roundness.
\<close>

theorem add_point_single_pixel_division_error:
  "mask_points dot_mask = [(0, 0)]
   \<and> raised (add_point demo_env 1 1 init) = Some ZeroDivisionError
   \<and> current_mask (state_of (add_point demo_env 1 1 init)) = Some dot_mask
   \<and> circle_shapes (state_of (add_point demo_env 1 1 init)) = []
   \<and> annotations (state_of (add_point demo_env 1 1 init)) = []"
  by (simp add: add_point_zero_radius [OF best_one _ demo_circle_dot] mask_points_dot init_def)

section \<open>Which calls reach the predictor and the solver\<close>

lemma adds_intro: "calls s' = calls s @ new \<Longrightarrow> filter P new = cs \<Longrightarrow> adds P cs s s'"
  by (simp add: adds_def emitted_def)

lemma adds_logD: "adds P cs s s' \<Longrightarrow> calls s' = calls s @ emitted s s'"
  by (metis adds_def append_take_drop_id emitted_def)

lemma adds_emitted: "adds P cs s s' \<Longrightarrow> filter P (emitted s s') = cs"
  by (simp add: adds_def)

lemma adds_refl: "adds P [] s s"
  by (simp add: adds_def emitted_def)

lemma adds_trans:
  assumes "adds P a s s1" and "adds P b s1 s2"
  shows "adds P (a @ b) s s2"
proof (rule adds_intro)
  show "calls s2 = calls s @ (emitted s s1 @ emitted s1 s2)"
    using adds_logD [OF assms(1)] adds_logD [OF assms(2)] by simp
  show "filter P (emitted s s1 @ emitted s1 s2) = a @ b"
    using adds_emitted [OF assms(1)] adds_emitted [OF assms(2)] by simp
qed

lemma adds_and_then:
  assumes "adds P a s (state_of r)" and "\<And>s1. adds P [] s1 (state_of (g s1))"
  shows "adds P a s (state_of (and_then r g))"
proof (cases r)
  case (Done s1)
  then show ?thesis
    using adds_trans [of P a s s1 "[]" "state_of (g s1)"] assms by simp
next
  case (Raised e s1)
  then show ?thesis
    using assms(1) by simp
qed

lemma draw_mask_adds:
  "adds is_predict
     (if xpoints s = [] \<or> ypoints s = [] then []
      else [Predict [(last (xpoints s), last (ypoints s))] [1] True])
     s (state_of (draw_mask E s))"
  "adds is_make_circle [] s (state_of (draw_mask E s))"
  by (auto simp: draw_mask_def unplot_eq Let_def emit_def intro!: adds_intro split: sum.splits)

lemma draw_points_adds:
  "adds is_predict [] s (state_of (draw_points s))"
  "adds is_make_circle [] s (state_of (draw_points s))"
  by (auto simp: draw_points_def unscatter_eq Let_def emit_def intro!: adds_intro)

lemma remove_circle_adds:
  "adds is_predict [] s (state_of (remove_circle s))"
  "adds is_make_circle [] s (state_of (remove_circle s))"
  by (auto simp: remove_circle_def Let_def emit_def adds_refl intro!: adds_intro)

lemma add_circle_adds_predict: "adds is_predict [] s (state_of (add_circle E s))"
  by (auto simp: add_circle_def Let_def emit_def adds_refl intro!: adds_intro
      split: option.splits)

lemma draw_idle_adds:
  "adds is_predict [] s (state_of (Done (emit DrawIdle s)))"
  "adds is_make_circle [] s (state_of (Done (emit DrawIdle s)))"
  by (auto simp: emit_def intro!: adds_intro)

lemma remove_tail_adds:
  "adds is_predict [] s (state_of (and_then (draw_points s)
      (\<lambda>s3. and_then (remove_circle s3) (\<lambda>s4. Done (emit DrawIdle s4)))))"
  "adds is_make_circle [] s (state_of (and_then (draw_points s)
      (\<lambda>s3. and_then (remove_circle s3) (\<lambda>s4. Done (emit DrawIdle s4)))))"
  by (intro adds_and_then draw_points_adds remove_circle_adds draw_idle_adds)+

lemma add_tail_adds_predict:
  "adds is_predict [] s (state_of (and_then (draw_points s)
      (\<lambda>s2. and_then (add_circle E s2) (\<lambda>s3. Done (emit DrawIdle s3)))))"
  by (intro adds_and_then draw_points_adds add_circle_adds_predict draw_idle_adds)

lemma add_point_adds_predict:
  "adds is_predict [Predict [(x, y)] [1] True] s (state_of (add_point E x y s))"
proof -
  let ?s0 = "s\<lparr>xpoints := xpoints s @ [x], ypoints := ypoints s @ [y]\<rparr>"
  have dm: "adds is_predict [Predict [(x, y)] [1] True] ?s0 (state_of (draw_mask E ?s0))"
    using draw_mask_adds(1) [of ?s0 E] by simp
  have "adds is_predict [Predict [(x, y)] [1] True] ?s0 (state_of (add_point E x y s))"
    unfolding add_point_def by (rule adds_and_then [OF dm add_tail_adds_predict])
  then show ?thesis
    by (simp add: adds_def emitted_def)
qed

lemma remove_last_point_adds_predict:
  "adds is_predict
     (if butlast (xpoints s) = [] \<or> butlast (ypoints s) = [] then []
      else [Predict [(last (butlast (xpoints s)), last (butlast (ypoints s)))] [1] True])
     s (state_of (remove_last_point E s))"
proof (cases "xpoints s = [] \<or> ypoints s = []")
  case True
  then show ?thesis
    by (auto simp: remove_last_point_def adds_refl intro!: adds_intro)
next
  case False
  let ?s2 = "s\<lparr>xpoints := butlast (xpoints s), ypoints := butlast (ypoints s)\<rparr>"
  have popped: "xpoints ?s2 = butlast (xpoints s)" "ypoints ?s2 = butlast (ypoints s)"
    by simp_all
  have dm: "adds is_predict
     (if butlast (xpoints s) = [] \<or> butlast (ypoints s) = [] then []
      else [Predict [(last (butlast (xpoints s)), last (butlast (ypoints s)))] [1] True])
     ?s2 (state_of (draw_mask E ?s2))"
    using draw_mask_adds(1) [of ?s2 E] by (simp only: popped)
  have "adds is_predict
     (if butlast (xpoints s) = [] \<or> butlast (ypoints s) = [] then []
      else [Predict [(last (butlast (xpoints s)), last (butlast (ypoints s)))] [1] True])
     ?s2 (state_of (and_then (draw_mask E ?s2)
       (\<lambda>s2. and_then (draw_points s2)
         (\<lambda>s3. and_then (remove_circle s3) (\<lambda>s4. Done (emit DrawIdle s4))))))"
    by (rule adds_and_then [OF dm remove_tail_adds(1)])
  then show ?thesis
    using False by (simp add: remove_last_point_def adds_def emitted_def)
qed

lemma remove_last_point_adds_solver:
  "adds is_make_circle [] s (state_of (remove_last_point E s))"
proof (cases "xpoints s = [] \<or> ypoints s = []")
  case True
  then show ?thesis
    by (auto simp: remove_last_point_def adds_refl intro!: adds_intro)
next
  case False
  let ?s2 = "s\<lparr>xpoints := butlast (xpoints s), ypoints := butlast (ypoints s)\<rparr>"
  have "adds is_make_circle [] ?s2 (state_of (and_then (draw_mask E ?s2)
       (\<lambda>s2. and_then (draw_points s2)
         (\<lambda>s3. and_then (remove_circle s3) (\<lambda>s4. Done (emit DrawIdle s4))))))"
    by (rule adds_and_then [OF draw_mask_adds(2) remove_tail_adds(2)])
  then show ?thesis
    using False by (simp add: remove_last_point_def adds_def emitted_def)
qed

section \<open>The stored mask\<close>

lemma draw_mask_current_mask:
  "current_mask (state_of (draw_mask E s))
     = (if xpoints s = [] \<or> ypoints s = [] then current_mask s
        else case best_mask (candidates E (last (xpoints s), last (ypoints s))) of
               Inl e \<Rightarrow> current_mask s
             | Inr m \<Rightarrow> Some m)"
  by (simp add: draw_mask_def unplot_eq Let_def split: sum.splits)

lemma later_steps_keep_current_mask:
  "current_mask (state_of (draw_points s)) = current_mask s"
  "current_mask (state_of (add_circle E s)) = current_mask s"
  "current_mask (state_of (remove_circle s)) = current_mask s"
  by (simp_all add: draw_points_def unscatter_eq add_circle_def remove_circle_def Let_def
      split: option.splits)

lemma tail_keeps_current_mask:
  assumes "\<And>t. current_mask (state_of (step t)) = current_mask t"
  shows "current_mask (state_of (and_then (draw_points s)
      (\<lambda>s3. and_then (step s3) (\<lambda>s4. Done (emit DrawIdle s4))))) = current_mask s"
proof (rule state_of_and_then_field [where f = current_mask])
  show "current_mask (state_of (draw_points s)) = current_mask s"
    by (rule later_steps_keep_current_mask)
next
  fix s1
  show "current_mask (state_of (and_then (step s1) (\<lambda>s4. Done (emit DrawIdle s4))))
          = current_mask s1"
    by (rule state_of_and_then_field [where f = current_mask]) (simp_all add: assms)
qed

lemma add_point_current_mask:
  "current_mask (state_of (add_point E x y s))
     = (case best_mask (candidates E (x, y)) of
          Inl e \<Rightarrow> current_mask s
        | Inr m \<Rightarrow> Some m)"
  unfolding add_point_def
proof (rule state_of_and_then_field [where f = current_mask])
  show "current_mask (state_of (draw_mask E (s\<lparr>xpoints := xpoints s @ [x], ypoints := ypoints s @ [y]\<rparr>)))
          = (case best_mask (candidates E (x, y)) of Inl e \<Rightarrow> current_mask s | Inr m \<Rightarrow> Some m)"
    by (simp add: draw_mask_current_mask split: sum.splits)
next
  fix s1
  show "current_mask (state_of (and_then (draw_points s1)
      (\<lambda>s2. and_then (add_circle E s2) (\<lambda>s3. Done (emit DrawIdle s3))))) = current_mask s1"
    by (rule tail_keeps_current_mask) (rule later_steps_keep_current_mask)
qed

lemma remove_last_point_current_mask:
  "current_mask (state_of (remove_last_point E s))
     = (if butlast (xpoints s) = [] \<or> butlast (ypoints s) = [] then current_mask s
        else case best_mask (candidates E (last (butlast (xpoints s)), last (butlast (ypoints s)))) of
               Inl e \<Rightarrow> current_mask s
             | Inr m \<Rightarrow> Some m)"
proof (cases "xpoints s = [] \<or> ypoints s = []")
  case True
  then show ?thesis
    by (auto simp: remove_last_point_def)
next
  case False
  let ?s2 = "s\<lparr>xpoints := butlast (xpoints s), ypoints := butlast (ypoints s)\<rparr>"
  have "current_mask (state_of (and_then (draw_mask E ?s2)
       (\<lambda>s2. and_then (draw_points s2)
         (\<lambda>s3. and_then (remove_circle s3) (\<lambda>s4. Done (emit DrawIdle s4))))))
     = (if butlast (xpoints s) = [] \<or> butlast (ypoints s) = [] then current_mask s
        else case best_mask (candidates E (last (butlast (xpoints s)), last (butlast (ypoints s)))) of
               Inl e \<Rightarrow> current_mask s
             | Inr m \<Rightarrow> Some m)"
  proof (rule state_of_and_then_field [where f = current_mask])
    show "current_mask (state_of (draw_mask E ?s2))
     = (if butlast (xpoints s) = [] \<or> butlast (ypoints s) = [] then current_mask s
        else case best_mask (candidates E (last (butlast (xpoints s)), last (butlast (ypoints s)))) of
               Inl e \<Rightarrow> current_mask s
             | Inr m \<Rightarrow> Some m)"
      by (simp add: draw_mask_current_mask split: sum.splits)
  next
    fix s1
    show "current_mask (state_of (and_then (draw_points s1)
        (\<lambda>s3. and_then (remove_circle s3) (\<lambda>s4. Done (emit DrawIdle s4))))) = current_mask s1"
      by (rule tail_keeps_current_mask) (rule later_steps_keep_current_mask)
  qed
  then show ?thesis
    using False by (simp add: remove_last_point_def)
qed

text \<open>
  C8. Whenever the predictor returns at least one candidate for the click, the mask
  \<open>add_point\<close> stores is the first component of the last pair of the candidates sorted
  stably by ascending score; that pair is one of the candidates, no candidate has a
  greater score, and among the candidates that share its score it is the one that comes
  last in the order the predictor returned them.
\<close>

theorem add_point_selects_greatest_score_latest_tie:
  assumes "candidates E (x, y) \<noteq> []"
  shows "\<exists>m sc. current_mask (state_of (add_point E x y s)) = Some m
           \<and> (m, sc) = last (sort_key snd (candidates E (x, y)))
           \<and> (m, sc) \<in> set (candidates E (x, y))
           \<and> (\<forall>p \<in> set (candidates E (x, y)). snd p \<le> sc)
           \<and> (m, sc) = last (filter (\<lambda>p. snd p = sc) (candidates E (x, y)))"
proof -
  obtain m sc where best: "best_mask (candidates E (x, y)) = Inr m"
    and rest: "(m, sc) = last (sort_key snd (candidates E (x, y)))"
      "(m, sc) \<in> set (candidates E (x, y))"
      "\<forall>p \<in> set (candidates E (x, y)). snd p \<le> sc"
      "(m, sc) = last (filter (\<lambda>p. snd p = sc) (candidates E (x, y)))"
    using best_mask_last_greatest [OF assms] by blast
  have "current_mask (state_of (add_point E x y s)) = Some m"
    using best by (simp add: add_point_current_mask)
  then show ?thesis
    using rest by blast
qed

text \<open>
  A click at \<open>(3, 3)\<close>: of the four candidates the second and the third are tied at the
  greatest score, and the third, the column mask, is stored.
\<close>

theorem add_point_selects_greatest_score_latest_tie_witness:
  "candidates demo_env (3, 3) \<noteq> []
   \<and> candidates demo_env (3, 3)
       = [(dot_mask, 1 / 2), (pair_mask, 9 / 10), (column_mask, 9 / 10), (blank_mask, 7 / 10)]
   \<and> current_mask (state_of (add_point demo_env 3 3 init)) = Some column_mask"
proof -
  have c: "candidates demo_env (3, 3)
       = [(dot_mask, 1 / 2), (pair_mask, 9 / 10), (column_mask, 9 / 10), (blank_mask, 7 / 10)]"
    by (simp add: candidates_def demo_env_def demo_predict_def)
  have "last (sort_key snd (candidates demo_env (3, 3))) = (column_mask, 9 / 10)"
    by (simp add: c)
  then show ?thesis
    using add_point_selects_greatest_score_latest_tie [of demo_env 3 3 init] c
    by (metis Pair_inject list.distinct(1))
qed

text \<open>
  C5. Whatever the state and whatever its outcome, \<open>add_point\<close> calls the predictor
  exactly once, with the single point just pushed, the single label 1 and
  \<open>multimask_output=True\<close>; \<open>remove_last_point\<close>, when a point remains below the one it
  pops, calls it exactly once, with the point that is now on top, and does not call it
  otherwise. After either call the stored mask is the mask chosen from that one answer
  (the old mask stays only when the predictor returned no candidate): it does not depend
  on the mask stored before.
\<close>

theorem mask_recomputed_from_top_point_only:
  "filter is_predict (emitted s (state_of (add_point E x y s))) = [Predict [(x, y)] [1] True]
   \<and> current_mask (state_of (add_point E x y s))
       = (case best_mask (candidates E (x, y)) of
            Inl e \<Rightarrow> current_mask s
          | Inr m \<Rightarrow> Some m)
   \<and> (butlast (xpoints s) \<noteq> [] \<and> butlast (ypoints s) \<noteq> [] \<longrightarrow>
        filter is_predict (emitted s (state_of (remove_last_point E s)))
          = [Predict [(last (butlast (xpoints s)), last (butlast (ypoints s)))] [1] True]
        \<and> current_mask (state_of (remove_last_point E s))
            = (case best_mask (candidates E (last (butlast (xpoints s)),
                                              last (butlast (ypoints s)))) of
                 Inl e \<Rightarrow> current_mask s
               | Inr m \<Rightarrow> Some m))
   \<and> (butlast (xpoints s) = [] \<longrightarrow>
        filter is_predict (emitted s (state_of (remove_last_point E s))) = []
        \<and> current_mask (state_of (remove_last_point E s)) = current_mask s)"
  using adds_emitted [OF add_point_adds_predict [where x = x and y = y and s = s and E = E]]
    adds_emitted [OF remove_last_point_adds_predict [where s = s and E = E]]
  by (simp add: add_point_current_mask remove_last_point_current_mask)

text \<open>
  After the clicks at \<open>(5, 5)\<close> and \<open>(2, 2)\<close>, removing the second sends the predictor the
  first click alone and stores the mask chosen for it in place of the column mask.
\<close>

theorem mask_recomputed_from_top_point_only_witness:
  "butlast (xpoints two_clicks) \<noteq> [] \<and> butlast (ypoints two_clicks) \<noteq> []
   \<and> current_mask two_clicks = Some column_mask
   \<and> filter is_predict (emitted two_clicks (state_of (remove_last_point demo_env two_clicks)))
       = [Predict [(5, 5)] [1] True]
   \<and> current_mask (state_of (remove_last_point demo_env two_clicks)) = Some pair_mask
   \<and> butlast (xpoints one_click) = []
   \<and> filter is_predict (emitted one_click (state_of (remove_last_point demo_env one_click))) = []"
  using mask_recomputed_from_top_point_only [where s = two_clicks and E = demo_env and x = 0 and y = 0]
    mask_recomputed_from_top_point_only [where s = one_click and E = demo_env and x = 0 and y = 0]
  by (simp add: two_clicks_fields one_click_fields best_five)

section \<open>No guard before the analysis\<close>

text \<open>
  C2, as the code has it. \<open>add_point\<close> has no test of the mask before \<open>add_circle\<close>:
  whenever a mask was chosen and the scatter plot could be drawn, the solver is called
  exactly once, with the foreground cells of that mask, and this list is empty exactly
  when the mask has no foreground pixel. \<open>remove_last_point\<close> never calls the solver.
\<close>

theorem add_point_analysis_unguarded:
  "(best_mask (candidates E (x, y)) = Inr m \<and> length (xpoints s) = length (ypoints s) \<longrightarrow>
      filter is_make_circle (emitted s (state_of (add_point E x y s)))
        = [MakeCircle (mask_points m)])
   \<and> (mask_points m = [] \<longleftrightarrow> foreground m = {})
   \<and> filter is_make_circle (emitted s (state_of (remove_last_point E s))) = []"
proof -
  have solver: "filter is_make_circle (emitted s (state_of (add_point E x y s)))
        = [MakeCircle (mask_points m)]"
    if m: "best_mask (candidates E (x, y)) = Inr m"
      and len: "length (xpoints s) = length (ypoints s)"
  proof (cases "make_circle E (mask_points m)")
    case None
    show ?thesis
      by (simp add: add_point_no_circle [OF m len None] emitted_def)
  next
    case (Some c)
    obtain cx cy r where c: "make_circle E (mask_points m) = Some (cx, cy, r)"
      using Some by (cases c) simp
    show ?thesis
    proof (cases "r = 0")
      case True
      then have c0: "make_circle E (mask_points m) = Some (cx, cy, 0)"
        using c by simp
      show ?thesis
        by (simp add: add_point_zero_radius [OF m len c0] emitted_def)
    next
      case False
      show ?thesis
        by (simp add: add_point_ok [OF m len c False] emitted_def)
    qed
  qed
  have empty: "mask_points m = [] \<longleftrightarrow> foreground m = {}"
    using set_mask_points [of m] by (metis set_empty)
  have "filter is_make_circle (emitted s (state_of (remove_last_point E s))) = []"
    by (rule adds_emitted [OF remove_last_point_adds_solver])
  then show ?thesis
    using solver empty by blast
qed

text \<open>A click at \<open>(0, 0)\<close>: the all-background mask is chosen and goes to the solver.\<close>

theorem add_point_analysis_unguarded_witness:
  "best_mask (candidates demo_env (0, 0)) = Inr blank_mask
   \<and> length (xpoints init) = length (ypoints init)
   \<and> foreground blank_mask = {}
   \<and> filter is_make_circle (emitted init (state_of (add_point demo_env 0 0 init)))
       = [MakeCircle []]"
  using add_point_analysis_unguarded [of demo_env 0 0 blank_mask init]
  by (simp add: best_origin mask_points_blank init_def)

text \<open>
  The claim as the spec states it fails at the first click when the mask chosen for it
  is all background: the solver is called with the empty point set, it has no circle,
  and \<open>add_circle\<close> raises on the subscript of \<open>None\<close>.
\<close>

theorem add_point_reaches_empty_point_set:
  "current_mask (state_of (add_point demo_env 0 0 init)) = Some blank_mask
   \<and> mask_points blank_mask = []
   \<and> MakeCircle [] \<in> set (calls (state_of (add_point demo_env 0 0 init)))
   \<and> raised (add_point demo_env 0 0 init) = Some TypeError"
  by (simp add: add_point_no_circle [OF best_origin _ demo_circle_blank] mask_points_blank
      init_def)

section \<open>When a mask exists\<close>

text \<open>
  C3, as the code has it. In every state reached by calls that returned, the mask
  overlay (\<open>mask_plot\<close>) exists exactly when the prompt stack is not empty. When
  \<open>remove_last_point\<close> pops the only point left, it returns, the overlay is gone, and
  neither the predictor nor the solver is called; the stored mask (\<open>current_mask\<close>),
  however, is not cleared: it is still the mask chosen for the point just removed.
\<close>

theorem mask_plot_iff_points_left:
  assumes "reachable E s"
  shows "(mask_plot s \<noteq> None) = (xpoints s \<noteq> [])
     \<and> (length (xpoints s) = 1 \<longrightarrow>
          (\<exists>s'. remove_last_point E s = Done s' \<and> xpoints s' = [] \<and> mask_plot s' = None
             \<and> current_mask s' = current_mask s \<and> current_mask s' \<noteq> None
             \<and> filter is_predict (emitted s s') = []
             \<and> filter is_make_circle (emitted s s') = []))"
proof -
  have step: "in_step E s"
    using assms by (rule reachable_in_step)
  have plot: "(mask_plot s \<noteq> None) = (xpoints s \<noteq> [])"
    using step by (simp add: in_step_def)
  have last_one: "\<exists>s'. remove_last_point E s = Done s' \<and> xpoints s' = [] \<and> mask_plot s' = None
             \<and> current_mask s' = current_mask s \<and> current_mask s' \<noteq> None
             \<and> filter is_predict (emitted s s') = []
             \<and> filter is_make_circle (emitted s s') = []"
    if one: "length (xpoints s) = 1"
  proof -
    have ne: "xpoints s \<noteq> []" and bl: "butlast (xpoints s) = []"
      using one by (cases "xpoints s"; simp)+
    have len: "length (ypoints s) = length (xpoints s)"
      and cne: "circle_shapes s \<noteq> []" and ane: "annotations s \<noteq> []"
      using in_step_lengths [OF step] one by auto
    have "current_mask s \<noteq> None"
      using step ne by (auto simp: in_step_def split: option.splits)
    then show ?thesis
      by (simp add: remove_last_point_last [OF ne bl len cne ane] emitted_def)
  qed
  show ?thesis
    using plot last_one by blast
qed

theorem mask_plot_iff_points_left_witness:
  "reachable demo_env one_click \<and> length (xpoints one_click) = 1
   \<and> mask_plot one_click = Some pair_mask
   \<and> (\<exists>s'. remove_last_point demo_env one_click = Done s' \<and> xpoints s' = []
          \<and> mask_plot s' = None \<and> current_mask s' = Some pair_mask)"
  using mask_plot_iff_points_left [of demo_env one_click] reachable_one_click
  by (auto simp: one_click_fields)

text \<open>
  The claim as the spec states it fails after one click and its removal: the prompt
  stack is empty, and a stored mask is still there.
\<close>

theorem current_mask_survives_last_removal:
  "add_point demo_env 5 5 init = Done one_click
   \<and> raised (remove_last_point demo_env one_click) = None
   \<and> xpoints (state_of (remove_last_point demo_env one_click)) = []
   \<and> current_mask (state_of (remove_last_point demo_env one_click)) = Some pair_mask"
proof -
  have "butlast (xpoints one_click) = []" and "xpoints one_click \<noteq> []"
    and "length (ypoints one_click) = length (xpoints one_click)"
    and "circle_shapes one_click \<noteq> []" and "annotations one_click \<noteq> []"
    using one_click_fields by auto
  then show ?thesis
    by (simp add: remove_last_point_last one_click_run one_click_fields)
qed

section \<open>The stacks after a call that raised\<close>

text \<open>
  C1. The four lists do not always have one length. At the first click, when the mask
  chosen is all background, \<open>add_point\<close> has pushed the point before \<open>add_circle\<close>
  raises, and no circle or annotation is pushed: the lengths are 1, 1, 0, 0. A second
  click, which returns, leaves them at 2, 2, 1, 1. (As long as no call raises the
  lengths agree: this is \<open>reachable_in_step\<close>.)
\<close>

theorem add_point_raising_breaks_lockstep:
  "raised (add_point demo_env 0 0 init) = Some TypeError
   \<and> stack_lengths (state_of (add_point demo_env 0 0 init)) = (1, 1, 0, 0)
   \<and> raised (add_point demo_env 5 5 (state_of (add_point demo_env 0 0 init))) = None
   \<and> stack_lengths (state_of (add_point demo_env 5 5 (state_of (add_point demo_env 0 0 init))))
       = (2, 2, 1, 1)"
proof -
  have first: "add_point demo_env 0 0 init = Raised TypeError (state_of (add_point demo_env 0 0 init))"
    by (simp add: add_point_no_circle [OF best_origin _ demo_circle_blank] init_def)
  have fields: "xpoints (state_of (add_point demo_env 0 0 init)) = [0]"
    "ypoints (state_of (add_point demo_env 0 0 init)) = [0]"
    "circle_shapes (state_of (add_point demo_env 0 0 init)) = []"
    "annotations (state_of (add_point demo_env 0 0 init)) = []"
    by (simp_all add: add_point_no_circle [OF best_origin _ demo_circle_blank] init_def)
  have len: "length (xpoints (state_of (add_point demo_env 0 0 init)))
      = length (ypoints (state_of (add_point demo_env 0 0 init)))"
    using fields by simp
  have second: "raised (add_point demo_env 5 5 (state_of (add_point demo_env 0 0 init))) = None"
    "stack_lengths (state_of (add_point demo_env 5 5 (state_of (add_point demo_env 0 0 init))))
       = (2, 2, 1, 1)"
    using fields
    by (simp_all add: add_point_ok [OF best_five len demo_circle_pair] stack_lengths_def)
  show ?thesis
    using first fields second by (simp add: stack_lengths_def) (metis raised.simps(2))
qed

text \<open>
  C6. After two calls of \<open>add_point\<close> and one call of \<open>remove_last_point\<close> the circle stack
  does not always hold the first circle. The first click, at \<open>(5, 5)\<close>, returns and pushes
  its circle. The second, at \<open>(0, 0)\<close>, gets the all-background mask: the point is pushed,
  \<open>add_circle\<close> raises, and no circle is pushed. \<open>remove_last_point\<close>, called on this stack
  of two points, returns; it pops the second point, takes the mask of the first again,
  and pops the last circle, which is the circle of the first point: the point \<open>(5, 5)\<close>
  stays and the circle stack is empty. (As long as no call has raised, the circles left
  are those of the remaining points: this is \<open>remove_last_point_pops_newest_circle\<close>.)
\<close>

theorem remove_last_point_after_raise_pops_older_circle:
  "add_point demo_env 5 5 init = Done one_click
   \<and> circle_shapes one_click = [(1 / 2, 0, 1 / 2)]
   \<and> raised (add_point demo_env 0 0 one_click) = Some TypeError
   \<and> xpoints (state_of (add_point demo_env 0 0 one_click)) = [5, 0]
   \<and> circle_shapes (state_of (add_point demo_env 0 0 one_click)) = [(1 / 2, 0, 1 / 2)]
   \<and> raised (remove_last_point demo_env (state_of (add_point demo_env 0 0 one_click))) = None
   \<and> xpoints (state_of (remove_last_point demo_env (state_of (add_point demo_env 0 0 one_click))))
       = [5]
   \<and> current_mask
         (state_of (remove_last_point demo_env (state_of (add_point demo_env 0 0 one_click))))
       = Some pair_mask
   \<and> circle_shapes
         (state_of (remove_last_point demo_env (state_of (add_point demo_env 0 0 one_click))))
       = []"
proof -
  have len: "length (xpoints one_click) = length (ypoints one_click)"
    by (simp add: one_click_fields)
  have ann: "annotations one_click \<noteq> []"
    using one_click_fields(4) by auto
  define t where "t = state_of (add_point demo_env 0 0 one_click)"
  have raised1: "raised (add_point demo_env 0 0 one_click) = Some TypeError"
    by (simp add: add_point_no_circle [OF best_origin len demo_circle_blank])
  have t: "xpoints t = [5, 0]" "ypoints t = [5, 0]" "circle_shapes t = [(1 / 2, 0, 1 / 2)]"
    "annotations t = annotations one_click"
    by (simp_all add: t_def add_point_no_circle [OF best_origin len demo_circle_blank]
        one_click_fields)
  have more: "butlast (xpoints t) \<noteq> []" and tlen: "length (ypoints t) = length (xpoints t)"
    and best: "best_mask (candidates demo_env (last (butlast (xpoints t)), last (butlast (ypoints t))))
                 = Inr pair_mask"
    and cne: "circle_shapes t \<noteq> []" and ane: "annotations t \<noteq> []"
    using t ann by (simp_all add: best_five)
  have "raised (remove_last_point demo_env t) = None"
    and "xpoints (state_of (remove_last_point demo_env t)) = [5]"
    and "current_mask (state_of (remove_last_point demo_env t)) = Some pair_mask"
    and "circle_shapes (state_of (remove_last_point demo_env t)) = []"
    using t by (simp_all add: remove_last_point_more [OF more tlen best cne ane])
  then show ?thesis
    using raised1 t one_click_run one_click_fields(3) unfolding t_def by simp
qed

text \<open>
  C7. \<open>add_point\<close> followed by \<open>remove_last_point\<close> does not always bring the circle and
  annotation stacks back to their lengths. In the state after one click, where the four
  lengths are 1, a click at \<open>(1, 1)\<close> gets the one-pixel mask: the point is pushed, the
  division raises, and no circle is pushed. The following \<open>remove_last_point\<close> returns;
  \<open>xpoints\<close> and \<open>ypoints\<close> are as before the click, but the circle and the annotation it
  popped are those of the earlier click: the lengths are 1, 1, 0, 0. (When \<open>add_point\<close>
  returns the stacks are restored: this is \<open>add_point_returned_then_remove_last_point\<close>.)
\<close>

theorem add_point_raising_then_remove_loses_circle:
  "add_point demo_env 5 5 init = Done one_click
   \<and> stack_lengths one_click = (1, 1, 1, 1)
   \<and> raised (add_point demo_env 1 1 one_click) = Some ZeroDivisionError
   \<and> raised (remove_last_point demo_env (state_of (add_point demo_env 1 1 one_click))) = None
   \<and> xpoints (state_of (remove_last_point demo_env (state_of (add_point demo_env 1 1 one_click))))
       = xpoints one_click
   \<and> ypoints (state_of (remove_last_point demo_env (state_of (add_point demo_env 1 1 one_click))))
       = ypoints one_click
   \<and> stack_lengths
         (state_of (remove_last_point demo_env (state_of (add_point demo_env 1 1 one_click))))
       = (1, 1, 0, 0)"
proof -
  have len: "length (xpoints one_click) = length (ypoints one_click)"
    by (simp add: one_click_fields)
  have ann: "annotations one_click \<noteq> []" "butlast (annotations one_click) = []"
    using one_click_fields(4) by (cases "annotations one_click"; simp)+
  define t where "t = state_of (add_point demo_env 1 1 one_click)"
  have raised1: "raised (add_point demo_env 1 1 one_click) = Some ZeroDivisionError"
    by (simp add: add_point_zero_radius [OF best_one len demo_circle_dot])
  have t: "xpoints t = [5, 1]" "ypoints t = [5, 1]" "circle_shapes t = [(1 / 2, 0, 1 / 2)]"
    "annotations t = annotations one_click"
    by (simp_all add: t_def add_point_zero_radius [OF best_one len demo_circle_dot]
        one_click_fields)
  have more: "butlast (xpoints t) \<noteq> []" and tlen: "length (ypoints t) = length (xpoints t)"
    and best: "best_mask (candidates demo_env (last (butlast (xpoints t)), last (butlast (ypoints t))))
                 = Inr pair_mask"
    and cne: "circle_shapes t \<noteq> []" and ane: "annotations t \<noteq> []"
    using t ann by (simp_all add: best_five)
  have "raised (remove_last_point demo_env t) = None"
    and "xpoints (state_of (remove_last_point demo_env t)) = [5]"
    and "ypoints (state_of (remove_last_point demo_env t)) = [5]"
    and "stack_lengths (state_of (remove_last_point demo_env t)) = (1, 1, 0, 0)"
    using t ann
    by (simp_all add: remove_last_point_more [OF more tlen best cne ane] stack_lengths_def)
  then show ?thesis
    using raised1 one_click_run one_click_fields unfolding t_def
    by (simp add: stack_lengths_def)
qed

end
